theory Spec2Isabelle
  imports Main "HOL-Library.AList"
begin

section \<open>Strings\<close>

text \<open>
  JavaScript strings are modelled as \<open>string\<close>. The case mapping and the character classes
  of the regular expressions are modelled on the ASCII range: \<open>toLowerCase\<close> maps
  \<open>A\<close>..\<open>Z\<close> to \<open>a\<close>..\<open>z\<close> and leaves every other character alone, \<open>\s\<close> is
  tab, line feed, vertical tab, form feed, carriage return and space, and \<open>\w\<close> is
  \<open>[A-Za-z0-9_]\<close>.
\<close>

definition lower_char :: "char \<Rightarrow> char" where
  "lower_char c =
     (case map_of (zip ''ABCDEFGHIJKLMNOPQRSTUVWXYZ'' ''abcdefghijklmnopqrstuvwxyz'') c of
        Some d \<Rightarrow> d
      | None \<Rightarrow> c)"

definition toLowerCase :: "string \<Rightarrow> string" where
  "toLowerCase s = map lower_char s"

definition is_space :: "char \<Rightarrow> bool" where
  "is_space c = (c \<in> set [CHR 0x09, CHR 0x0A, CHR 0x0B, CHR 0x0C, CHR 0x0D, CHR '' ''])"

text \<open>\<^verbatim>\<open>s.replace(/\s+/g, '-')\<close>: every maximal run of white space becomes one dash.\<close>

function replace_spaces :: "string \<Rightarrow> string" where
  "replace_spaces [] = []"
| "replace_spaces (c # cs) =
     (if is_space c then CHR ''-'' # replace_spaces (dropWhile is_space cs)
      else c # replace_spaces cs)"
  by pat_completeness auto
termination
  by (relation "measure length") (auto simp: less_Suc_eq_le length_dropWhile_le)

text \<open>\<^verbatim>\<open>s.trim()\<close> used as a condition: true when some character is not white space.\<close>

definition trim_nonempty :: "string \<Rightarrow> bool" where
  "trim_nonempty s = list_ex (\<lambda>c. \<not> is_space c) s"

text \<open>\<^verbatim>\<open>s.includes(t)\<close>: \<open>t\<close> occurs in \<open>s\<close> as a contiguous substring.\<close>

fun starts_with :: "string \<Rightarrow> string \<Rightarrow> bool" where
  "starts_with s [] = True"
| "starts_with [] (d # t) = False"
| "starts_with (c # s) (d # t) = (c = d \<and> starts_with s t)"

fun str_includes :: "string \<Rightarrow> string \<Rightarrow> bool" where
  "str_includes [] t = (t = [])"
| "str_includes (c # s) t = (starts_with (c # s) t \<or> str_includes s t)"

text \<open>\<^verbatim>\<open>parts.join(sep)\<close>.\<close>

fun join :: "string \<Rightarrow> string list \<Rightarrow> string" where
  "join sep [] = []"
| "join sep [x] = x"
| "join sep (x # y # ys) = x @ sep @ join sep (y # ys)"

section \<open>Sub-task identity (orchestrator.ts)\<close>

definition generateSubTaskId :: "string \<Rightarrow> string \<Rightarrow> string" where
  "generateSubTaskId parentTaskId agentName =
     parentTaskId @ ''-'' @ replace_spaces (toLowerCase agentName)"

section \<open>Messages, tasks and events (schema)\<close>

text \<open>
  Of the wire schema only what the orchestrator reads is kept: whether a part has a
  \<open>text\<close> field, the state and the optional message of a status, the parts of an artifact.
  Dates are logical instants, \<open>nat\<close>.
\<close>

datatype part = TextPart string | FilePart | DataPart

record message =
  role :: string
  parts :: "part list"

datatype task_state = Submitted | Working | InputRequired | Completed | Canceled | Failed | Unknown

record artifact =
  artifact_name :: "string option"
  artifact_parts :: "part list"

datatype event =
  StatusUpdate task_state "message option"
| ArtifactUpdate artifact

record Task =
  status_message :: "message option"
  artifacts :: "artifact list option"

datatype error = Error string

text \<open>
  \<^verbatim>\<open>parts.filter(part => 'text' in part).map(part => ('text' in part) ? part.text : '').join('\n')\<close>
\<close>

fun part_texts :: "part list \<Rightarrow> string list" where
  "part_texts [] = []"
| "part_texts (TextPart t # ps) = t # part_texts ps"
| "part_texts (p # ps) = part_texts ps"

definition parts_text :: "part list \<Rightarrow> string" where
  "parts_text ps = join [CHR 0x0A] (part_texts ps)"

section \<open>Conversation memory (conversation_memory.ts)\<close>

record SubTaskInfo =
  sub_agentName :: string
  sub_taskId :: string
  success :: bool

record ConversationTurn =
  userMessage :: message
  agentResponse :: "message option"
  timestamp :: nat
  turn_taskId :: "string option"
  subTasks :: "SubTaskInfo list option"

record InputRequiredState =
  inputRequiredAgent :: string
  subTaskId :: string
  requestTimestamp :: nat

record Conversation =
  conv_id :: string
  startedAt :: nat
  lastUpdatedAt :: nat
  turns :: "ConversationTurn list"
  metadata :: "(string \<times> string) list"
  lastState :: "InputRequiredState option"

text \<open>
  The private \<^verbatim>\<open>Map<string, Conversation>\<close> of the class. Every method takes the store and
  returns the store it leaves; a method that reads the clock takes the instant \<open>now\<close>; a
  method that throws returns \<open>Inl\<close> of the error and leaves no store.
\<close>

type_synonym ConversationMemory = "string \<rightharpoonup> Conversation"

definition createConversation ::
  "ConversationMemory \<Rightarrow> nat \<Rightarrow> string \<Rightarrow> (string \<times> string) list
     \<Rightarrow> Conversation \<times> ConversationMemory" where
  "createConversation mem now cid meta =
     (let conversation = \<lparr>conv_id = cid, startedAt = now, lastUpdatedAt = now, turns = [],
                            metadata = meta, lastState = None\<rparr>
      in (conversation, mem(cid \<mapsto> conversation)))"

definition getConversation :: "ConversationMemory \<Rightarrow> string \<Rightarrow> Conversation option" where
  "getConversation mem cid = mem cid"

definition not_found :: "string \<Rightarrow> error" where
  "not_found cid = Error (''Conversation with ID '' @ cid @ '' not found'')"

definition not_found_or_no_turns :: "string \<Rightarrow> error" where
  "not_found_or_no_turns cid =
     Error (''Conversation with ID '' @ cid @ '' not found or has no turns'')"

definition addUserMessage ::
  "ConversationMemory \<Rightarrow> nat \<Rightarrow> string \<Rightarrow> message \<Rightarrow> string option
     \<Rightarrow> error + ConversationMemory" where
  "addUserMessage mem now cid msg tid =
     (case mem cid of
        None \<Rightarrow> Inl (not_found cid)
      | Some conversation \<Rightarrow>
          (let turn = \<lparr>userMessage = msg, agentResponse = None, timestamp = now,
                       turn_taskId = tid, subTasks = None\<rparr>
           in Inr (mem(cid \<mapsto> conversation\<lparr>turns := turns conversation @ [turn],
                                              lastUpdatedAt := now\<rparr>))))"

definition addAgentResponse ::
  "ConversationMemory \<Rightarrow> nat \<Rightarrow> string \<Rightarrow> message \<Rightarrow> error + ConversationMemory" where
  "addAgentResponse mem now cid resp =
     (case mem cid of
        None \<Rightarrow> Inl (not_found_or_no_turns cid)
      | Some conversation \<Rightarrow>
          if turns conversation = [] then Inl (not_found_or_no_turns cid)
          else
            (let lastTurn = last (turns conversation)
             in Inr (mem(cid \<mapsto> conversation
                  \<lparr>turns := butlast (turns conversation) @ [lastTurn\<lparr>agentResponse := Some resp\<rparr>],
                   lastUpdatedAt := now\<rparr>))))"

definition setInputRequiredState ::
  "ConversationMemory \<Rightarrow> nat \<Rightarrow> string \<Rightarrow> string \<Rightarrow> string \<Rightarrow> error + ConversationMemory" where
  "setInputRequiredState mem now cid agentName sid =
     (case mem cid of
        None \<Rightarrow> Inl (not_found cid)
      | Some conversation \<Rightarrow>
          Inr (mem(cid \<mapsto> conversation
                 \<lparr>lastUpdatedAt := now,
                  lastState := Some \<lparr>inputRequiredAgent = agentName, subTaskId = sid,
                                     requestTimestamp = now\<rparr>\<rparr>)))"

definition clearInputRequiredState :: "ConversationMemory \<Rightarrow> string \<Rightarrow> ConversationMemory" where
  "clearInputRequiredState mem cid =
     (case mem cid of
        None \<Rightarrow> mem
      | Some conversation \<Rightarrow>
          (case lastState conversation of
             None \<Rightarrow> mem
           | Some _ \<Rightarrow> mem(cid \<mapsto> conversation\<lparr>lastState := None\<rparr>)))"

definition addSubTaskInfo ::
  "ConversationMemory \<Rightarrow> string \<Rightarrow> string \<Rightarrow> string \<Rightarrow> bool \<Rightarrow> error + ConversationMemory" where
  "addSubTaskInfo mem cid agentName tid ok =
     (case mem cid of
        None \<Rightarrow> Inl (not_found_or_no_turns cid)
      | Some conversation \<Rightarrow>
          if turns conversation = [] then Inl (not_found_or_no_turns cid)
          else
            (let lastTurn = last (turns conversation);
                 old = (case subTasks lastTurn of None \<Rightarrow> [] | Some l \<Rightarrow> l);
                 info = \<lparr>sub_agentName = agentName, sub_taskId = tid, success = ok\<rparr>
             in Inr (mem(cid \<mapsto> conversation
                  \<lparr>turns := butlast (turns conversation) @ [lastTurn\<lparr>subTasks := Some (old @ [info])\<rparr>]\<rparr>))))"

text \<open>Decimal rendering of \<open>index + 1\<close> in the template string of the summary.\<close>

function show_nat :: "nat \<Rightarrow> string" where
  "show_nat n =
     (if n < 10 then [''0123456789'' ! n]
      else show_nat (n div 10) @ [''0123456789'' ! (n mod 10)])"
  by pat_completeness auto
termination
  by (relation "measure id") auto

text \<open>\<^verbatim>\<open>turns.slice(-maxTurns)\<close> for a natural \<open>maxTurns\<close>; \<^verbatim>\<open>slice(-0)\<close> is the whole array.\<close>

definition slice_last :: "nat \<Rightarrow> 'a list \<Rightarrow> 'a list" where
  "slice_last n xs = (if n = 0 then xs else drop (length xs - n) xs)"

definition render_turn :: "nat \<Rightarrow> ConversationTurn \<Rightarrow> string" where
  "render_turn index turn =
     (let userText = parts_text (parts (userMessage turn));
          joined = (case agentResponse turn of None \<Rightarrow> [] | Some r \<Rightarrow> parts_text (parts r));
          agentText = (if joined = [] then ''No response'' else joined)
      in ''Turn '' @ show_nat (index + 1) @ '':'' @ [CHR 0x0A] @
         replicate 20 CHR '' '' @ ''User: '' @ userText @ [CHR 0x0A] @
         replicate 20 CHR '' '' @ ''Agent: '' @ agentText)"

definition getConversationSummary :: "ConversationMemory \<Rightarrow> string \<Rightarrow> nat \<Rightarrow> string" where
  "getConversationSummary mem cid maxTurns =
     (case mem cid of
        None \<Rightarrow> ''No conversation history.''
      | Some conversation \<Rightarrow>
          if turns conversation = [] then ''No conversation history.''
          else
            (let recentTurns = slice_last maxTurns (turns conversation)
             in join [CHR 0x0A, CHR 0x0A]
                  (map (\<lambda>(index, turn). render_turn index turn)
                       (zip [0 ..< length recentTurns] recentTurns))))"

section \<open>Agent registry (agent_registry.ts)\<close>

datatype agent_status = Active | Unreachable

record AgentSkill =
  skill_id :: string
  skill_name :: string
  skill_tags :: "string list option"
  skill_description :: "string option"

record AgentCard =
  card_name :: string
  card_description :: "string option"
  card_skills :: "AgentSkill list"

text \<open>
  The \<open>client\<close> field of the source is an object holding the URL; the remote calls made
  through it are parameters of the functions that make them, applied to the URL.
\<close>

record ManagedAgent =
  agent_id :: string
  agent_name :: string
  url :: string
  card :: AgentCard
  capabilities :: "string list"
  status :: agent_status
  lastChecked :: nat

text \<open>
  The two private maps, as association lists in insertion order (the iteration order of a
  JavaScript \<open>Map\<close> and \<open>Set\<close>): \<open>Map.set\<close> is \<open>AList.update\<close>, which replaces the
  value of a present key in place and appends an absent one; \<open>Set.add\<close> is \<open>set_add\<close>.
\<close>

record AgentRegistry =
  agents :: "(string \<times> ManagedAgent) list"
  agentsByCapability :: "(string \<times> string list) list"

definition empty_registry :: AgentRegistry where
  "empty_registry = \<lparr>agents = [], agentsByCapability = []\<rparr>"

definition set_add :: "'a \<Rightarrow> 'a list \<Rightarrow> 'a list" where
  "set_add x xs = (if x \<in> set xs then xs else xs @ [x])"

definition is_word_char :: "char \<Rightarrow> bool" where
  "is_word_char c =
     (c \<in> set ''ABCDEFGHIJKLMNOPQRSTUVWXYZabcdefghijklmnopqrstuvwxyz0123456789_'')"

text \<open>\<^verbatim>\<open>url.replace(/[^\w]/g, '-')\<close>\<close>

definition generateAgentId :: "string \<Rightarrow> string" where
  "generateAgentId u = ''agent-'' @ map (\<lambda>c. if is_word_char c then c else CHR ''-'') u"

text \<open>
  \<^verbatim>\<open>text.split(/\W+/)\<close>: the pieces between maximal runs of non-word characters; a
  separator at either end leaves an empty piece there. The first argument is the piece
  being read.
\<close>

function split_nonword :: "string \<Rightarrow> string \<Rightarrow> string list" where
  "split_nonword w [] = [w]"
| "split_nonword w (c # cs) =
     (if is_word_char c then split_nonword (w @ [c]) cs
      else w # split_nonword [] (dropWhile (\<lambda>d. \<not> is_word_char d) cs))"
  by pat_completeness auto
termination
  by (relation "measure (\<lambda>(w, s). length s)") (auto simp: less_Suc_eq_le length_dropWhile_le)

definition stopWords :: "string list" where
  "stopWords = [''a'', ''an'', ''the'', ''and'', ''or'', ''but'', ''is'', ''are'', ''in'', ''to'',
                ''that'', ''it'', ''with'', ''as'', ''for'', ''on'', ''by'']"

definition extractKeywords :: "string \<Rightarrow> string list" where
  "extractKeywords text =
     filter (\<lambda>word. length word > 3 \<and> word \<notin> set stopWords)
            (split_nonword [] (toLowerCase text))"

text \<open>A condition on an optional string: \<open>undefined\<close> and the empty string are false.\<close>

definition truthy :: "string option \<Rightarrow> bool" where
  "truthy v = (case v of None \<Rightarrow> False | Some s \<Rightarrow> s \<noteq> [])"

definition skill_capabilities :: "AgentSkill \<Rightarrow> string list" where
  "skill_capabilities skill =
     [toLowerCase (skill_id skill), toLowerCase (skill_name skill)] @
     (case skill_tags skill of None \<Rightarrow> [] | Some tags \<Rightarrow> map toLowerCase tags) @
     (if truthy (skill_description skill)
      then map toLowerCase (extractKeywords (the (skill_description skill))) else [])"

text \<open>The capabilities are collected in a \<open>Set\<close>: first occurrences, in order.\<close>

definition extractCapabilities :: "AgentCard \<Rightarrow> string list" where
  "extractCapabilities c =
     foldl (\<lambda>acc cap. set_add cap acc) []
       (concat (map skill_capabilities (card_skills c)) @
        (if truthy (card_description c)
         then map toLowerCase (extractKeywords (the (card_description c))) else []))"

definition index_capability :: "string \<Rightarrow> (string \<times> string list) list \<Rightarrow> string
     \<Rightarrow> (string \<times> string list) list" where
  "index_capability aid idx capability =
     (let idx' = (if map_of idx capability = None then AList.update capability [] idx else idx)
      in case map_of idx' capability of
           None \<Rightarrow> idx'
         | Some ids \<Rightarrow> AList.update capability (set_add aid ids) idx')"

text \<open>
  \<open>addAgent\<close>: \<open>fetched\<close> is what \<^verbatim>\<open>client.agentCard()\<close> gave, \<open>None\<close> when it threw; then
  the registry is left alone and the result is \<open>null\<close>.
\<close>

definition addAgent ::
  "AgentRegistry \<Rightarrow> nat \<Rightarrow> string \<Rightarrow> AgentCard option \<Rightarrow> ManagedAgent option \<times> AgentRegistry" where
  "addAgent reg now u fetched =
     (case fetched of
        None \<Rightarrow> (None, reg)
      | Some c \<Rightarrow>
          (let aid = generateAgentId u;
               caps = extractCapabilities c;
               agent = \<lparr>agent_id = aid, agent_name = card_name c, url = u, card = c,
                        capabilities = caps, status = Active, lastChecked = now\<rparr>
           in (Some agent,
               \<lparr>agents = AList.update aid agent (agents reg),
                agentsByCapability = foldl (index_capability aid) (agentsByCapability reg) caps\<rparr>)))"

definition getAllAgents :: "AgentRegistry \<Rightarrow> ManagedAgent list" where
  "getAllAgents reg = map snd (agents reg)"

definition getAgent :: "AgentRegistry \<Rightarrow> string \<Rightarrow> ManagedAgent option" where
  "getAgent reg aid = map_of (agents reg) aid"

text \<open>
  \<open>findAgentsByCapabilities\<close>: the outer \<open>forEach\<close> runs over the requested capabilities,
  the inner one over the index; the matching ids are collected in a \<open>Set\<close>.
\<close>

definition matchingAgentIds :: "AgentRegistry \<Rightarrow> string list \<Rightarrow> string list" where
  "matchingAgentIds reg caps =
     foldl (\<lambda>acc capability.
              let lowerCapability = toLowerCase capability
              in foldl (\<lambda>acc' (indexedCapability, agentIds).
                          if str_includes indexedCapability lowerCapability
                          then foldl (\<lambda>a aid. set_add aid a) acc' agentIds
                          else acc')
                       acc (agentsByCapability reg))
           [] caps"

definition findAgentsByCapabilities :: "AgentRegistry \<Rightarrow> string list \<Rightarrow> ManagedAgent list" where
  "findAgentsByCapabilities reg caps =
     filter (\<lambda>agent. status agent = Active)
       (List.map_filter (\<lambda>aid. map_of (agents reg) aid) (matchingAgentIds reg caps))"

definition findAgentByName :: "AgentRegistry \<Rightarrow> string \<Rightarrow> ManagedAgent option" where
  "findAgentByName reg name =
     find (\<lambda>agent. str_includes (toLowerCase (agent_name agent)) (toLowerCase name))
          (map snd (agents reg))"

text \<open>
  \<open>checkAgentsHealth\<close>: \<open>alive u\<close> tells whether \<^verbatim>\<open>agent.client.agentCard()\<close> succeeded for
  the agent at URL \<open>u\<close>. The index is not touched.
\<close>

definition checkAgentsHealth :: "AgentRegistry \<Rightarrow> nat \<Rightarrow> (string \<Rightarrow> bool) \<Rightarrow> AgentRegistry" where
  "checkAgentsHealth reg now alive =
     reg\<lparr>agents :=
           map (\<lambda>(aid, agent).
                  (aid, agent\<lparr>status := (if alive (url agent) then Active else Unreachable),
                              lastChecked := now\<rparr>))
               (agents reg)\<rparr>"

section \<open>Task plans and the reasoning oracle (task_router.ts)\<close>

datatype execution_order = Parallel | Sequential

text \<open>
  \<open>waitingSubTaskId\<close> is \<^verbatim>\<open>taskPlan.metadata?.waitingSubTaskId\<close>: \<open>None\<close> when the plan has no
  metadata or the metadata has no such key. No other key of the metadata is read.
\<close>

record TaskPlan =
  taskDescription :: string
  isMultiAgentTask :: bool
  selectedAgents :: "string list"
  plan_subTasks :: "(string \<times> string) list"
  executionOrder :: execution_order
  needsCoordination :: bool
  waitingSubTaskId :: "string option"
  continueWithAgent :: "string option"
  continuationContext :: "string option"

text \<open>
  The language model behind \<^verbatim>\<open>ai.generateStream\<close> is a parameter \<open>ai\<close>: it maps a prompt
  to the trimmed text of the answer, \<open>None\<close> when the call throws. A prompt is kept as the
  values its template string is filled with.
\<close>

datatype prompt =
  SubTaskPrompt string string string string string
| IntegrationPrompt string string

definition generateSubTaskPrompt ::
  "(prompt \<Rightarrow> string option) \<Rightarrow> string \<Rightarrow> string \<Rightarrow> string \<Rightarrow> TaskPlan \<Rightarrow> string \<Rightarrow> string" where
  "generateSubTaskPrompt ai originalTask agentName agentDescription taskPlan conversationSummary =
     (let baseSubTask =
            (case map_of (plan_subTasks taskPlan) agentName of
               None \<Rightarrow> originalTask
             | Some t \<Rightarrow> if t = [] then originalTask else t)
      in if \<not> isMultiAgentTask taskPlan then baseSubTask
         else
           (case ai (SubTaskPrompt originalTask agentName agentDescription baseSubTask
                       conversationSummary) of
              Some text \<Rightarrow> text
            | None \<Rightarrow> baseSubTask))"

record AgentResponse =
  resp_agentName :: string
  response :: string

definition response_separator :: string where
  "response_separator = [CHR 0x0A, CHR 0x0A] @ replicate 40 CHR ''-'' @ [CHR 0x0A, CHR 0x0A]"

text \<open>
  \<open>integrateResponses\<close> returns the reply together with the prompts it submitted to the
  language model, so that a call of the oracle is visible in the result.
\<close>

definition integrateResponses ::
  "(prompt \<Rightarrow> string option) \<Rightarrow> string \<Rightarrow> AgentResponse list \<Rightarrow> TaskPlan
     \<Rightarrow> string \<times> prompt list" where
  "integrateResponses ai originalTask agentResponses taskPlan =
     (if \<not> isMultiAgentTask taskPlan \<and> length agentResponses = 1
      then (response (hd agentResponses), [])
      else
        (let formattedResponses =
               join response_separator
                 (map (\<lambda>r. resp_agentName r @ '':'' @ [CHR 0x0A] @ response r) agentResponses);
             p = IntegrationPrompt originalTask formattedResponses
         in case ai p of
              Some text \<Rightarrow> (text, [p])
            | None \<Rightarrow>
                (join response_separator
                   (map (\<lambda>r. ''[From '' @ resp_agentName r @ '']:'' @ [CHR 0x0A] @ response r)
                        agentResponses),
                 [p])))"

section \<open>Integration of the agents' results (orchestrator.ts)\<close>

definition artifacts_text :: "string \<Rightarrow> artifact list \<Rightarrow> string" where
  "artifacts_text responseText arts =
     foldl (\<lambda>txt art.
              let artifactText = parts_text (artifact_parts art)
              in if trim_nonempty artifactText
                 then txt @ [CHR 0x0A, CHR 0x0A] @ artifactText else txt)
           responseText arts"

definition result_text :: "Task \<Rightarrow> string" where
  "result_text result =
     (let responseText =
            (case status_message result of None \<Rightarrow> [] | Some m \<Rightarrow> parts_text (parts m))
      in case artifacts result of
           None \<Rightarrow> responseText
         | Some arts \<Rightarrow> artifacts_text responseText arts)"

text \<open>The loop over \<^verbatim>\<open>results.entries()\<close> that fills \<open>agentResponses\<close>.\<close>

fun collect_responses :: "(string \<times> Task option) list \<Rightarrow> AgentResponse list" where
  "collect_responses [] = []"
| "collect_responses ((agentName, None) # rest) = collect_responses rest"
| "collect_responses ((agentName, Some result) # rest) =
     (if trim_nonempty (result_text result)
      then \<lparr>resp_agentName = agentName, response = result_text result\<rparr> # collect_responses rest
      else collect_responses rest)"

definition integrateAgentResponses ::
  "(prompt \<Rightarrow> string option) \<Rightarrow> string \<Rightarrow> string \<Rightarrow> TaskPlan \<Rightarrow> (string \<times> Task option) list
     \<Rightarrow> string \<times> prompt list" where
  "integrateAgentResponses ai taskId conversationId taskPlan results =
     (let agentResponses = collect_responses results
      in if length agentResponses = 0 then
           (if truthy (waitingSubTaskId taskPlan)
            then (''I wasn't able to process your response. Please try asking your question again from the beginning.'', [])
            else (''I couldn't determine which specialized agents to use for this task. Please try a different request or check that agents are available.'', []))
         else if \<not> isMultiAgentTask taskPlan \<and> length agentResponses = 1
         then (response (hd agentResponses), [])
         else integrateResponses ai (taskDescription taskPlan) agentResponses taskPlan)"

section \<open>Remote streams\<close>

text \<open>
  Modelled from the spec: \<^verbatim>\<open>client.sendTaskSubscribe\<close> (client.ts is not among the sources)
  returns a lazy, finite, non-restartable sequence of status and artifact updates. A source
  is the list of its events, each with the instant at which it arrives from the remote
  agent, the instant at which the sequence ends, and whether it ends by an error
  (\<open>fails_at_end\<close>) instead of ending normally. A source that fails rejects the pull; the
  multiplexer turns the rejection into \<^verbatim>\<open>done: true\<close> and so does not tell the two ends
  apart, the handler's own loop over a resumed stream does.

  The iterator obtained from a source answers its \<^verbatim>\<open>next()\<close> requests in the order they
  were made, one element of the sequence per request: a request made at \<open>now\<close> resolves
  when its element has arrived and the request before it has resolved. \<open>inflight\<close> keeps
  the instants at which the requests made so far resolve.
\<close>

record StreamSource =
  items :: "(nat \<times> event) list"
  closes_at :: nat
  fails_at_end :: bool

record AsyncIterator =
  pending_items :: "(nat \<times> event) list"
  source_closes_at :: nat
  inflight :: "nat list"

definition asyncIterator :: "StreamSource \<Rightarrow> AsyncIterator" where
  "asyncIterator src = \<lparr>pending_items = items src, source_closes_at = closes_at src, inflight = []\<rparr>"

text \<open>\<^verbatim>\<open>iterator.next()\<close> at \<open>now\<close>: the instant it resolves, its value (\<open>None\<close> for done), the iterator.\<close>

definition next_pull :: "nat \<Rightarrow> AsyncIterator \<Rightarrow> nat \<times> event option \<times> AsyncIterator" where
  "next_pull now it =
     (let busy = (if inflight it = [] then 0 else last (inflight it))
      in case pending_items it of
           [] \<Rightarrow>
             (let r = max now (max (source_closes_at it) busy)
              in (r, None, it\<lparr>inflight := inflight it @ [r]\<rparr>))
         | (t, e) # rest \<Rightarrow>
             (let r = max now (max t busy)
              in (r, Some e, it\<lparr>pending_items := rest, inflight := inflight it @ [r]\<rparr>)))"

text \<open>The requests made on an iterator that have not resolved at \<open>now\<close>.\<close>

definition outstanding :: "nat \<Rightarrow> AsyncIterator \<Rightarrow> nat" where
  "outstanding now it = length (filter (\<lambda>r. now < r) (inflight it))"

text \<open>
  \<^verbatim>\<open>Promise.race\<close>: the promise that settles first; of two that settle at the same
  instant, the one that comes first in the array.
\<close>

fun race :: "string \<times> nat \<times> event option \<Rightarrow> (string \<times> nat \<times> event option) list
     \<Rightarrow> string \<times> nat \<times> event option" where
  "race p [] = p"
| "race p (q # qs) = (let w = race q qs in if fst (snd p) \<le> fst (snd w) then p else w)"

section \<open>Executing a task plan (orchestrator.ts)\<close>

record SendParams =
  param_id :: string
  param_sessionId :: "string option"
  param_message :: message

record DispatchState =
  streamingTasks :: "(string \<times> StreamSource) list"
  dispatch_memory :: ConversationMemory
  sent :: "(string \<times> SendParams) list"

text \<open>
  The first loop of \<open>executeTaskPlan\<close>: the selected names are resolved in the registry;
  \<open>agentsByName\<close> is a \<open>Map\<close>, \<open>selectedAgents\<close> an array.
\<close>

definition resolve_agents ::
  "AgentRegistry \<Rightarrow> string list \<Rightarrow> (string \<times> ManagedAgent) list \<times> ManagedAgent list" where
  "resolve_agents reg names =
     foldl (\<lambda>(agentsByName, selected) agentName.
              case findAgentByName reg agentName of
                Some agent \<Rightarrow> (AList.update agentName agent agentsByName, selected @ [agent])
              | None \<Rightarrow> (agentsByName, selected))
           ([], []) names"

text \<open>
  The end of the \<open>try\<close> block and the \<open>catch\<close> block of the dispatch loop.
  \<open>send u params\<close> is \<^verbatim>\<open>agent.client.sendTaskSubscribe(params)\<close> for the agent at URL \<open>u\<close>,
  \<open>None\<close> when the call throws. \<open>sent\<close> records the calls made. The result is the error
  that leaves the \<open>catch\<close> block, if any, and the state reached.
\<close>

definition open_stream ::
  "(string \<Rightarrow> SendParams \<Rightarrow> StreamSource option) \<Rightarrow> string \<Rightarrow> string \<Rightarrow> ManagedAgent
     \<Rightarrow> string \<Rightarrow> message \<Rightarrow> DispatchState \<Rightarrow> error option \<times> DispatchState" where
  "open_stream send conversationId agentName agent sid msg st =
     (let params = \<lparr>param_id = sid, param_sessionId = Some conversationId, param_message = msg\<rparr>;
          st1 = st\<lparr>sent := sent st @ [(agentName, params)]\<rparr>
      in case send (url agent) params of
           Some stream \<Rightarrow>
             (let st2 = st1\<lparr>streamingTasks := streamingTasks st1 @ [(agentName, stream)]\<rparr>
              in case addSubTaskInfo (dispatch_memory st2) conversationId agentName sid True of
                   Inr mem \<Rightarrow> (None, st2\<lparr>dispatch_memory := mem\<rparr>)
                 | Inl e \<Rightarrow>
                     (case addSubTaskInfo (dispatch_memory st2) conversationId agentName sid False of
                        Inr mem \<Rightarrow> (None, st2\<lparr>dispatch_memory := mem\<rparr>)
                      | Inl e' \<Rightarrow> (Some e', st2)))
         | None \<Rightarrow>
             (case addSubTaskInfo (dispatch_memory st1) conversationId agentName sid False of
                Inr mem \<Rightarrow> (None, st1\<lparr>dispatch_memory := mem\<rparr>)
              | Inl e' \<Rightarrow> (Some e', st1)))"

definition dispatch_agent ::
  "(string \<Rightarrow> SendParams \<Rightarrow> StreamSource option) \<Rightarrow> (prompt \<Rightarrow> string option) \<Rightarrow> string
     \<Rightarrow> string \<Rightarrow> TaskPlan \<Rightarrow> string \<Rightarrow> message \<Rightarrow> string \<times> ManagedAgent \<Rightarrow> DispatchState
     \<Rightarrow> error option \<times> DispatchState" where
  "dispatch_agent send ai taskId conversationId taskPlan conversationSummary latestUserMessage
       entry st =
     (case entry of (agentName, agent) \<Rightarrow>
        if truthy (waitingSubTaskId taskPlan) then
          (let sid = the (waitingSubTaskId taskPlan)
           in open_stream send conversationId agentName agent sid latestUserMessage st)
        else
          (let sid = generateSubTaskId taskId agentName;
               subTaskPrompt =
                 generateSubTaskPrompt ai (taskDescription taskPlan) agentName
                   (case card_description (card agent) of None \<Rightarrow> [] | Some d \<Rightarrow> d)
                   taskPlan conversationSummary;
               taskMessage = \<lparr>role = ''user'', parts = [TextPart subTaskPrompt]\<rparr>
           in open_stream send conversationId agentName agent sid taskMessage st))"

fun dispatch_all ::
  "(string \<Rightarrow> SendParams \<Rightarrow> StreamSource option) \<Rightarrow> (prompt \<Rightarrow> string option) \<Rightarrow> string
     \<Rightarrow> string \<Rightarrow> TaskPlan \<Rightarrow> string \<Rightarrow> message \<Rightarrow> (string \<times> ManagedAgent) list
     \<Rightarrow> DispatchState \<Rightarrow> error option \<times> DispatchState" where
  "dispatch_all send ai taskId conversationId taskPlan summary latest [] st = (None, st)"
| "dispatch_all send ai taskId conversationId taskPlan summary latest (entry # rest) st =
     (case dispatch_agent send ai taskId conversationId taskPlan summary latest entry st of
        (Some e, st') \<Rightarrow> (Some e, st')
      | (None, st') \<Rightarrow>
          dispatch_all send ai taskId conversationId taskPlan summary latest rest st')"

text \<open>
  The multiplexing loop. One \<open>Round\<close> is one turn of the \<open>while\<close> loop: \<open>pulled\<close> lists the
  streams on which \<^verbatim>\<open>iterator.next()\<close> was called in this round, each with the number of
  its requests that are unresolved once the call is made; \<open>winner\<close> is the stream whose
  promise won the race, at \<open>adopted_at\<close>; \<open>yielded\<close> is what the generator yielded.
\<close>

record Round =
  issued_at :: nat
  pulled :: "(string \<times> nat) list"
  winner :: string
  adopted_at :: nat
  yielded :: "(string \<times> event) option"

record MuxState =
  mux_now :: nat
  activeStreams :: "(string \<times> AsyncIterator) list"
  memory :: ConversationMemory
  inputRequiredAgents :: "(string \<times> string) list"
  thrown :: "error option"

definition is_input_required :: "event \<Rightarrow> bool" where
  "is_input_required ev = (case ev of StatusUpdate st m \<Rightarrow> st = InputRequired | ArtifactUpdate a \<Rightarrow> False)"

definition mux_round ::
  "string \<Rightarrow> string \<Rightarrow> TaskPlan \<Rightarrow> (string \<times> ManagedAgent) list \<Rightarrow> MuxState
     \<Rightarrow> (Round \<times> MuxState) option" where
  "mux_round taskId conversationId taskPlan agentsByName s =
     (if activeStreams s = [] \<or> thrown s \<noteq> None then None
      else
        (let pulls = map (\<lambda>(agentName, it). (agentName, next_pull (mux_now s) it)) (activeStreams s);
             advanced = map (\<lambda>(agentName, r, res, it'). (agentName, it')) pulls;
             streamPromises = map (\<lambda>(agentName, r, res, it'). (agentName, r, res)) pulls
         in case race (hd streamPromises) (tl streamPromises) of (agentName, r, res) \<Rightarrow>
           (let rd = \<lparr>issued_at = mux_now s,
                      pulled = map (\<lambda>(n, it'). (n, outstanding (mux_now s) it')) advanced,
                      winner = agentName, adopted_at = r, yielded = None\<rparr>;
                s1 = s\<lparr>mux_now := r, activeStreams := advanced\<rparr>
            in case res of
                 None \<Rightarrow> Some (rd, s1\<lparr>activeStreams := AList.delete agentName advanced\<rparr>)
               | Some ev \<Rightarrow>
                   if is_input_required ev \<and> map_of agentsByName agentName \<noteq> None then
                     (let sid =
                            (if truthy (waitingSubTaskId taskPlan) \<and>
                                (case selectedAgents taskPlan of [] \<Rightarrow> False
                                 | a # _ \<Rightarrow> agentName = a)
                             then the (waitingSubTaskId taskPlan)
                             else generateSubTaskId taskId agentName);
                          waiting = AList.update agentName sid (inputRequiredAgents s)
                      in case setInputRequiredState (memory s) r conversationId agentName sid of
                           Inl e \<Rightarrow>
                             Some (rd, s1\<lparr>inputRequiredAgents := waiting, thrown := Some e\<rparr>)
                         | Inr mem \<Rightarrow>
                             Some (rd\<lparr>yielded := Some (agentName, ev)\<rparr>,
                                   s1\<lparr>memory := mem, inputRequiredAgents := waiting,
                                      activeStreams := AList.delete agentName advanced\<rparr>))
                   else Some (rd\<lparr>yielded := Some (agentName, ev)\<rparr>, s1))))"

text \<open>The events that the live streams still hold.\<close>

definition pending_total :: "MuxState \<Rightarrow> nat" where
  "pending_total s = sum_list (map (\<lambda>(n, it). length (pending_items it)) (activeStreams s))"

definition stream_budget :: "MuxState \<Rightarrow> nat" where
  "stream_budget s = sum_list (map (\<lambda>(n, it). Suc (length (pending_items it))) (activeStreams s))"

text \<open>
  The loop ends: a round either adopts an event, which its stream no longer holds, or
  removes a stream from the live set.
\<close>

lemma race_mem: "race p ps \<in> set (p # ps)"
  by (induction p ps rule: race.induct) (auto simp: Let_def)

lemma next_pull_pending:
  "next_pull t it = (r, res, it') \<Longrightarrow>
     (res = None \<longrightarrow> pending_items it' = pending_items it) \<and>
     (res \<noteq> None \<longrightarrow> Suc (length (pending_items it')) = length (pending_items it))"
  by (auto simp: next_pull_def Let_def split: list.splits prod.splits)

lemma sum_filter_le:
  fixes g :: "'a \<Rightarrow> nat"
  shows "sum_list (map g (filter P xs)) \<le> sum_list (map g xs)"
  by (induction xs) auto

lemma sum_filter_drop:
  fixes g :: "'a \<Rightarrow> nat"
  shows "x \<in> set xs \<Longrightarrow> \<not> P x \<Longrightarrow> sum_list (map g (filter P xs)) + g x \<le> sum_list (map g xs)"
  by (induction xs) (auto simp: sum_filter_le add.commute trans_le_add2)

lemma sum_map_le:
  fixes g :: "'a \<Rightarrow> nat"
  shows "(\<And>x. x \<in> set xs \<Longrightarrow> g (h x) \<le> g x) \<Longrightarrow> sum_list (map g (map h xs)) \<le> sum_list (map g xs)"
  by (induction xs) (auto simp: add_mono)

lemma sum_map_less:
  fixes g :: "'a \<Rightarrow> nat"
  shows "(\<And>x. x \<in> set xs \<Longrightarrow> g (h x) \<le> g x) \<Longrightarrow> y \<in> set xs \<Longrightarrow> g (h y) < g y \<Longrightarrow>
     sum_list (map g (map h xs)) < sum_list (map g xs)"
proof (induction xs)
  case Nil
  then show ?case by simp
next
  case (Cons x xs)
  have le: "sum_list (map g (map h xs)) \<le> sum_list (map g xs)"
    by (rule sum_map_le) (simp add: Cons.prems(1))
  show ?case
  proof (cases "y = x")
    case True
    with Cons.prems(3) le show ?thesis by simp
  next
    case False
    with Cons.prems have "y \<in> set xs" by simp
    with Cons have "sum_list (map g (map h xs)) < sum_list (map g xs)" by simp
    moreover have "g (h x) \<le> g x" by (simp add: Cons.prems(1))
    ultimately show ?thesis by simp
  qed
qed

lemma mux_round_budget:
  assumes step: "mux_round taskId cid plan abn s = Some (rd, s')"
  shows "stream_budget s' < stream_budget s"
proof -
  define live where "live = activeStreams s"
  define adv where "adv = (\<lambda>(n::string, it::AsyncIterator). (n, snd (snd (next_pull (mux_now s) it))))"
  define prom where
    "prom = (\<lambda>(n::string, it::AsyncIterator). (n, fst (next_pull (mux_now s) it), fst (snd (next_pull (mux_now s) it))))"
  define g where "g = (\<lambda>(n::string, it::AsyncIterator). Suc (length (pending_items it)))"
  have ne: "live \<noteq> []"
    using step by (auto simp: mux_round_def live_def split: if_splits)
  have advanced:
    "map (\<lambda>(agentName, r, res, it'). (agentName, it'))
       (map (\<lambda>(agentName, it). (agentName, next_pull (mux_now s) it)) live) = map adv live"
    by (simp add: adv_def split_def)
  have promises:
    "map (\<lambda>(agentName, r, res, it'). (agentName, r, res))
       (map (\<lambda>(agentName, it). (agentName, next_pull (mux_now s) it)) live) = map prom live"
    by (simp add: prom_def split_def)
  obtain w r res where w: "race (hd (map prom live)) (tl (map prom live)) = (w, r, res)"
    by (cases "race (hd (map prom live)) (tl (map prom live))")
  have "(w, r, res) \<in> set (map prom live)"
    using race_mem [of "hd (map prom live)" "tl (map prom live)"] ne w by simp
  then obtain it where it: "(w, it) \<in> set live" and r: "fst (next_pull (mux_now s) it) = r"
    and res: "fst (snd (next_pull (mux_now s) it)) = res"
    by (auto simp: prom_def)
  have pull: "next_pull (mux_now s) it = (r, res, snd (snd (next_pull (mux_now s) it)))"
    using r res by (cases "next_pull (mux_now s) it") auto
  have le: "g (adv x) \<le> g x" for x
  proof (cases x)
    case (Pair n i)
    obtain r0 res0 i' where p: "next_pull (mux_now s) i = (r0, res0, i')"
      by (cases "next_pull (mux_now s) i") auto
    from next_pull_pending [OF p] show ?thesis
      by (cases res0) (auto simp: Pair g_def adv_def p)
  qed
  have sum_le: "sum_list (map g (map adv live)) \<le> sum_list (map g live)"
    by (rule sum_map_le) (rule le)
  have streams:
    "(res = None \<longrightarrow> activeStreams s' = AList.delete w (map adv live)) \<and>
     (activeStreams s' = AList.delete w (map adv live) \<or> activeStreams s' = map adv live)"
    using step w unfolding mux_round_def live_def [symmetric] Let_def advanced promises
    by (auto split: if_splits option.splits sum.splits)
  have del: "AList.delete w xs = filter (\<lambda>x. fst x \<noteq> w) xs" for xs :: "(string \<times> AsyncIterator) list"
    by (induction xs) auto
  have budget: "stream_budget s = sum_list (map g live)"
    "stream_budget s' = sum_list (map g (activeStreams s'))"
    by (simp_all add: stream_budget_def g_def live_def)
  show ?thesis
  proof (cases res)
    case None
    have mem: "adv (w, it) \<in> set (map adv live)" using it by simp
    have "sum_list (map g (filter (\<lambda>x. fst x \<noteq> w) (map adv live))) + g (adv (w, it))
            \<le> sum_list (map g (map adv live))"
      by (rule sum_filter_drop [OF mem]) (simp add: adv_def)
    moreover have "0 < g (adv (w, it))" by (simp add: g_def adv_def)
    ultimately show ?thesis
      using streams None sum_le by (simp add: budget del)
  next
    case (Some ev)
    from next_pull_pending [OF pull] Some
    have "g (adv (w, it)) < g (w, it)" by (auto simp: g_def adv_def)
    with it have "sum_list (map g (map adv live)) < sum_list (map g live)"
      using sum_map_less [of live g adv "(w, it)"] le by blast
    moreover have "sum_list (map g (filter (\<lambda>x. fst x \<noteq> w) (map adv live)))
                     \<le> sum_list (map g (map adv live))"
      by (rule sum_filter_le)
    ultimately show ?thesis
      using streams by (auto simp: budget del)
  qed
qed

function multiplex ::
  "string \<Rightarrow> string \<Rightarrow> TaskPlan \<Rightarrow> (string \<times> ManagedAgent) list \<Rightarrow> MuxState
     \<Rightarrow> Round list \<times> MuxState" where
  "multiplex taskId conversationId taskPlan agentsByName s =
     (case mux_round taskId conversationId taskPlan agentsByName s of
        None \<Rightarrow> ([], s)
      | Some (rd, s') \<Rightarrow>
          (case multiplex taskId conversationId taskPlan agentsByName s' of
             (rds, fin) \<Rightarrow> (rd # rds, fin)))"
  by pat_completeness auto
termination
  by (relation "measure (\<lambda>(taskId, conversationId, taskPlan, agentsByName, s). stream_budget s)")
     (auto simp: mux_round_budget)

declare multiplex.simps [simp del]

text \<open>
  \<open>executeTaskPlan\<close>, started at the instant \<open>start\<close> and run to its end, the caller
  taking each yielded event at once. The result holds the calls of
  \<^verbatim>\<open>sendTaskSubscribe\<close> made, the rounds of the multiplexing loop, the conversation memory
  and the \<open>inputRequiredAgents\<close> map at the end, and the error thrown, if any.
\<close>

record ExecResult =
  requests :: "(string \<times> SendParams) list"
  trace :: "Round list"
  end_memory :: ConversationMemory
  waiting_agents :: "(string \<times> string) list"
  failure :: "error option"

definition executeTaskPlan ::
  "(string \<Rightarrow> SendParams \<Rightarrow> StreamSource option) \<Rightarrow> (prompt \<Rightarrow> string option)
     \<Rightarrow> AgentRegistry \<Rightarrow> ConversationMemory \<Rightarrow> nat \<Rightarrow> string \<Rightarrow> string \<Rightarrow> TaskPlan
     \<Rightarrow> ExecResult" where
  "executeTaskPlan send ai reg mem start taskId conversationId taskPlan =
     (case resolve_agents reg (selectedAgents taskPlan) of (agentsByName, selected) \<Rightarrow>
        if length selected = 0 then
          \<lparr>requests = [], trace = [], end_memory = mem, waiting_agents = [],
           failure = Some (Error ''None of the selected agents are available'')\<rparr>
        else
          (let conversationSummary = getConversationSummary mem conversationId 5
           in case getConversation mem conversationId of
                None \<Rightarrow>
                  \<lparr>requests = [], trace = [], end_memory = mem, waiting_agents = [],
                   failure = Some (Error ''No conversation found or conversation has no turns'')\<rparr>
              | Some conversation \<Rightarrow>
                  if length (turns conversation) = 0 then
                    \<lparr>requests = [], trace = [], end_memory = mem, waiting_agents = [],
                     failure = Some (Error ''No conversation found or conversation has no turns'')\<rparr>
                  else
                    (let latestUserMessage = userMessage (last (turns conversation))
                     in case dispatch_all send ai taskId conversationId taskPlan
                               conversationSummary latestUserMessage agentsByName
                               \<lparr>streamingTasks = [], dispatch_memory = mem, sent = []\<rparr> of
                          (Some e, st) \<Rightarrow>
                            \<lparr>requests = sent st, trace = [], end_memory = dispatch_memory st,
                             waiting_agents = [], failure = Some e\<rparr>
                        | (None, st) \<Rightarrow>
                            (let live =
                                   foldl (\<lambda>m (agentName, stream).
                                            AList.update agentName (asyncIterator stream) m)
                                         [] (streamingTasks st)
                             in case multiplex taskId conversationId taskPlan agentsByName
                                       \<lparr>mux_now = start, activeStreams = live,
                                        memory = dispatch_memory st,
                                        inputRequiredAgents = [], thrown = None\<rparr> of
                                  (rds, fin) \<Rightarrow>
                                    \<lparr>requests = sent st, trace = rds, end_memory = memory fin,
                                     waiting_agents = inputRequiredAgents fin,
                                     failure = thrown fin\<rparr>))))"

text \<open>What the generator yields, in order.\<close>

definition yielded_events :: "Round list \<Rightarrow> (string \<times> event) list" where
  "yielded_events rds = List.map_filter yielded rds"

section \<open>Collecting the terminal records (index.ts)\<close>

definition is_terminal :: "event \<Rightarrow> bool" where
  "is_terminal ev =
     (case ev of
        StatusUpdate st m \<Rightarrow> st \<in> set [Completed, Failed, Canceled]
      | ArtifactUpdate a \<Rightarrow> False)"

text \<open>
  The first block of the body of the \<^verbatim>\<open>for await\<close> loop of the handler. \<open>getTask u i\<close> is
  \<^verbatim>\<open>agent.client.getTask({ id: i })\<close> for the agent at URL \<open>u\<close>, \<open>None\<close> when it gives no
  task or throws. The state is the \<open>results\<close> map and the list of the lookups made.
\<close>

definition handler_track_result ::
  "(string \<Rightarrow> string \<Rightarrow> Task option) \<Rightarrow> AgentRegistry \<Rightarrow> string
     \<Rightarrow> (string \<times> Task option) list \<times> (string \<times> string) list \<Rightarrow> string \<times> event
     \<Rightarrow> (string \<times> Task option) list \<times> (string \<times> string) list" where
  "handler_track_result getTask reg taskId st tagged =
     (case (st, tagged) of ((results, lookups), (agentName, ev)) \<Rightarrow>
        if is_terminal ev then
          (case findAgentByName reg agentName of
             None \<Rightarrow> (results, lookups)
           | Some agent \<Rightarrow>
               (let sid = taskId @ ''-'' @ replace_spaces (toLowerCase agentName)
                in case getTask (url agent) sid of
                     None \<Rightarrow> (results, lookups @ [(agentName, sid)])
                   | Some fullTask \<Rightarrow>
                       (AList.update agentName (Some fullTask) results,
                        lookups @ [(agentName, sid)])))
        else (results, lookups))"

text \<open>
  The loop over the events of \<open>executeTaskPlan\<close>, as far as the results are concerned (the
  other blocks of its body forward progress messages and end the loop on cancellation).
\<close>

definition handler_collect ::
  "(string \<Rightarrow> string \<Rightarrow> Task option) \<Rightarrow> AgentRegistry \<Rightarrow> string \<Rightarrow> (string \<times> event) list
     \<Rightarrow> (string \<times> Task option) list \<times> (string \<times> string) list" where
  "handler_collect getTask reg taskId evs =
     foldl (handler_track_result getTask reg taskId) ([], []) evs"

section \<open>Planning (task_router.ts, orchestrator.ts)\<close>

text \<open>
  The planning call of the language model is a parameter \<open>analyse\<close>: given the text of the
  request, the available agents and the conversation summary (the values the prompt is
  built from) it gives the JSON object found in the answer, \<open>None\<close> when the call throws,
  the answer holds no JSON object or parsing throws. A field of the object may be missing.
\<close>

record Analysis =
  an_selectedAgents :: "string list option"
  an_isMultiAgentTask :: "bool option"
  an_subTasks :: "(string \<times> string) list option"
  an_executionOrder :: "execution_order option"
  an_needsCoordination :: "bool option"
  an_continueWithAgent :: "string option"

definition analyzeRequest ::
  "(string \<Rightarrow> ManagedAgent list \<Rightarrow> string \<Rightarrow> Analysis option) \<Rightarrow> message \<Rightarrow> ManagedAgent list
     \<Rightarrow> string \<Rightarrow> InputRequiredState option \<Rightarrow> TaskPlan" where
  "analyzeRequest analyse userMsg availableAgents conversationSummary lastInputRequiredState =
     (let continuation =
            (case lastInputRequiredState of
               None \<Rightarrow> None
             | Some st \<Rightarrow>
                 if list_ex (\<lambda>agent. toLowerCase (agent_name agent) =
                                       toLowerCase (inputRequiredAgent st)) availableAgents
                 then Some
                   \<lparr>taskDescription = ''Continuando conversa com agente que solicitou entrada'',
                    isMultiAgentTask = False,
                    selectedAgents = [inputRequiredAgent st],
                    plan_subTasks = [(inputRequiredAgent st, ''Continuando conversa anterior'')],
                    executionOrder = Parallel,
                    needsCoordination = False,
                    waitingSubTaskId = Some (subTaskId st),
                    continueWithAgent = Some (inputRequiredAgent st),
                    continuationContext = None\<rparr>
                 else None)
      in case continuation of
           Some plan \<Rightarrow> plan
         | None \<Rightarrow>
             (let userText = parts_text (parts userMsg)
              in case analyse userText availableAgents conversationSummary of
                   Some a \<Rightarrow>
                     \<lparr>taskDescription = userText,
                      isMultiAgentTask = (case an_isMultiAgentTask a of None \<Rightarrow> False | Some b \<Rightarrow> b),
                      selectedAgents = (case an_selectedAgents a of None \<Rightarrow> [] | Some l \<Rightarrow> l),
                      plan_subTasks = (case an_subTasks a of None \<Rightarrow> [] | Some l \<Rightarrow> l),
                      executionOrder = (case an_executionOrder a of None \<Rightarrow> Parallel | Some x \<Rightarrow> x),
                      needsCoordination = (case an_needsCoordination a of None \<Rightarrow> False | Some b \<Rightarrow> b),
                      waitingSubTaskId = None,
                      continueWithAgent =
                        (if truthy (an_continueWithAgent a) then an_continueWithAgent a else None),
                      continuationContext = None\<rparr>
                 | None \<Rightarrow>
                     \<lparr>taskDescription = userText,
                      isMultiAgentTask = (length availableAgents > 1),
                      selectedAgents = map agent_name availableAgents,
                      plan_subTasks = map (\<lambda>a. (agent_name a, userText)) availableAgents,
                      executionOrder = Parallel,
                      needsCoordination = (length availableAgents > 1),
                      waitingSubTaskId = None,
                      continueWithAgent = None,
                      continuationContext = None\<rparr>))"

text \<open>
  \<open>planExecution\<close>: \<open>uuid\<close> is what \<^verbatim>\<open>crypto.randomUUID()\<close> gives. The result is the plan and
  the conversation id, or the error thrown, together with the conversation memory left.
  \<open>conversation.lastState\<close> is read from the stored object after the user turn is added.
\<close>

definition planExecution ::
  "(string \<Rightarrow> ManagedAgent list \<Rightarrow> string \<Rightarrow> Analysis option) \<Rightarrow> string \<Rightarrow> AgentRegistry
     \<Rightarrow> ConversationMemory \<Rightarrow> nat \<Rightarrow> string \<Rightarrow> message \<Rightarrow> string option
     \<Rightarrow> (error + TaskPlan \<times> string) \<times> ConversationMemory" where
  "planExecution analyse uuid reg mem now taskId userMsg sessionId =
     (let conversationId = (if truthy sessionId then the sessionId else ''conv-'' @ uuid);
          mem1 = (case getConversation mem conversationId of
                    Some conversation \<Rightarrow> mem
                  | None \<Rightarrow> snd (createConversation mem now conversationId []))
      in case addUserMessage mem1 now conversationId userMsg (Some taskId) of
           Inl e \<Rightarrow> (Inl e, mem1)
         | Inr mem2 \<Rightarrow>
             (let lastInputRequiredState =
                    (case getConversation mem2 conversationId of
                       None \<Rightarrow> None
                     | Some conversation \<Rightarrow> lastState conversation);
                  conversationSummary = getConversationSummary mem2 conversationId 5;
                  activeAgents = filter (\<lambda>agent. status agent = Active) (getAllAgents reg)
              in if length activeAgents = 0
                 then (Inl (Error ''No active agents available''), mem2)
                 else (Inr (analyzeRequest analyse userMsg activeAgents conversationSummary
                              lastInputRequiredState,
                            conversationId),
                       mem2)))"

section \<open>The task handler (index.ts)\<close>

text \<open>
  The remote parties of one run of the handler: the streaming call and the point lookup
  of an agent (by URL), the language model, the planning call, the agent card of a URL
  (\<open>None\<close> when \<^verbatim>\<open>client.agentCard()\<close> throws) and the random UUID.
\<close>

record World =
  w_send :: "string \<Rightarrow> SendParams \<Rightarrow> StreamSource option"
  w_ai :: "prompt \<Rightarrow> string option"
  w_analyse :: "string \<Rightarrow> ManagedAgent list \<Rightarrow> string \<Rightarrow> Analysis option"
  w_getTask :: "string \<Rightarrow> string \<Rightarrow> Task option"
  w_agentCard :: "string \<Rightarrow> AgentCard option"
  w_uuid :: string

text \<open>
  What one run of the handler does, for a run that is not cancelled: the registry and the
  conversation memory it leaves, the plan it obtained from \<open>planExecution\<close> (if it got
  that far), the calls of \<^verbatim>\<open>sendTaskSubscribe\<close> made (by the handler itself or by
  \<open>executeTaskPlan\<close>), the events it received from the sub-task streams, the calls of
  \<^verbatim>\<open>getTask\<close> made, and the state of the last status it yields. The progress messages it
  yields on the way are left out.
\<close>

record HandlerRun =
  run_registry :: AgentRegistry
  run_memory :: ConversationMemory
  run_plan :: "TaskPlan option"
  calls :: "(string \<times> SendParams) list"
  received :: "(string \<times> event) list"
  lookups :: "(string \<times> string) list"
  final_state :: task_state

definition idle_run :: "AgentRegistry \<Rightarrow> ConversationMemory \<Rightarrow> task_state \<Rightarrow> HandlerRun" where
  "idle_run reg mem fin =
     \<lparr>run_registry = reg, run_memory = mem, run_plan = None, calls = [], received = [],
      lookups = [], final_state = fin\<rparr>"

text \<open>
  The \<^verbatim>\<open>for await\<close> loop of the handler over the stream of a resumed sub-task: the events
  received, the memory left and the state of the last status yielded. An event is stamped
  with the later of \<open>now\<close> and its arrival.
\<close>

fun resumed_events ::
  "ConversationMemory \<Rightarrow> string \<Rightarrow> string \<Rightarrow> string \<Rightarrow> nat \<Rightarrow> bool \<Rightarrow> (nat \<times> event) list
     \<Rightarrow> event list \<times> ConversationMemory \<times> task_state" where
  "resumed_events mem cid agentName sid now fails [] =
     (if fails then ([], mem, Failed) else ([], clearInputRequiredState mem cid, Completed))"
| "resumed_events mem cid agentName sid now fails ((t, ev) # rest) =
     (if is_terminal ev then ([ev], clearInputRequiredState mem cid, Completed)
      else if is_input_required ev then
        (case setInputRequiredState mem (max now t) cid agentName sid of
           Inl e \<Rightarrow> ([ev], mem, Failed)
         | Inr mem' \<Rightarrow> ([ev], mem', InputRequired))
      else
        (case resumed_events mem cid agentName sid now fails rest of
           (evs, mem', fin) \<Rightarrow> (ev # evs, mem', fin)))"

text \<open>
  The guard at the head of the handler: a suspension stored for the session is resumed by
  the handler itself, which sends the user message to the waiting agent under the stored
  sub-task id and returns; \<open>planExecution\<close>, \<open>executeTaskPlan\<close> and \<^verbatim>\<open>getTask\<close> are not
  reached.
\<close>

definition handler_resume ::
  "World \<Rightarrow> AgentRegistry \<Rightarrow> ConversationMemory \<Rightarrow> nat \<Rightarrow> string option \<Rightarrow> message
     \<Rightarrow> InputRequiredState \<Rightarrow> HandlerRun" where
  "handler_resume W reg mem now sessionId userMsg previousState =
     (let agentName = inputRequiredAgent previousState;
          sid = subTaskId previousState;
          cid = (if truthy sessionId then the sessionId else [])
      in case findAgentByName reg agentName of
           None \<Rightarrow> idle_run reg mem Failed
         | Some agent \<Rightarrow>
             (let params = \<lparr>param_id = sid,
                            param_sessionId = (if truthy sessionId then sessionId else None),
                            param_message = userMsg\<rparr>
              in case w_send W (url agent) params of
                   None \<Rightarrow> (idle_run reg mem Failed)\<lparr>calls := [(agentName, params)]\<rparr>
                 | Some stream \<Rightarrow>
                     (case resumed_events mem cid agentName sid now (fails_at_end stream)
                             (items stream) of
                        (evs, mem', fin) \<Rightarrow>
                          \<lparr>run_registry = reg, run_memory = mem', run_plan = None,
                           calls = [(agentName, params)],
                           received = map (\<lambda>ev. (agentName, ev)) evs,
                           lookups = [], final_state = fin\<rparr>)))"

text \<open>\<^verbatim>\<open>userText.match(/https?:\/\/[^\s]+/)\<close>: the leftmost match.\<close>

definition url_at :: "string \<Rightarrow> string option" where
  "url_at s =
     (if starts_with s ''https://'' \<and> takeWhile (\<lambda>c. \<not> is_space c) (drop 8 s) \<noteq> []
      then Some (''https://'' @ takeWhile (\<lambda>c. \<not> is_space c) (drop 8 s))
      else if starts_with s ''http://'' \<and> takeWhile (\<lambda>c. \<not> is_space c) (drop 7 s) \<noteq> []
      then Some (''http://'' @ takeWhile (\<lambda>c. \<not> is_space c) (drop 7 s))
      else None)"

fun match_url :: "string \<Rightarrow> string option" where
  "match_url [] = None"
| "match_url (c # cs) = (case url_at (c # cs) of Some u \<Rightarrow> Some u | None \<Rightarrow> match_url cs)"

text \<open>
  The agent-management commands: \<open>None\<close> when the request is none of them (or asks to add
  an agent without a URL) and goes on to planning; otherwise the registry left and the
  state of the status yielded.
\<close>

definition handler_command ::
  "World \<Rightarrow> AgentRegistry \<Rightarrow> nat \<Rightarrow> string \<Rightarrow> (AgentRegistry \<times> task_state) option" where
  "handler_command W reg now userText =
     (if str_includes userText ''add agent'' \<or> str_includes userText ''register agent'' then
        (case match_url userText of
           Some agentUrl \<Rightarrow>
             (case addAgent reg now agentUrl (w_agentCard W agentUrl) of
                (Some agent, reg') \<Rightarrow> Some (reg', Completed)
              | (None, reg') \<Rightarrow> Some (reg', Failed))
         | None \<Rightarrow> None)
      else if str_includes userText ''list agents'' \<or> userText = ''agents'' then
        Some (reg, Completed)
      else if str_includes userText ''check agents'' \<or> str_includes userText ''health check'' then
        Some (checkAgentsHealth reg now (\<lambda>u. w_agentCard W u \<noteq> None), Completed)
      else None)"

text \<open>
  The execution of a plan by the handler: the plan is run, the terminal records are looked
  up as the events come in, and, unless an agent waits for input, the responses are
  integrated and recorded at \<open>later\<close>.
\<close>

definition handler_execute ::
  "World \<Rightarrow> AgentRegistry \<Rightarrow> ConversationMemory \<Rightarrow> nat \<Rightarrow> nat \<Rightarrow> string \<Rightarrow> string \<Rightarrow> TaskPlan
     \<Rightarrow> HandlerRun" where
  "handler_execute W reg mem now later taskId conversation plan =
     (let exec = executeTaskPlan (w_send W) (w_ai W) reg mem now taskId conversation plan;
          evs = yielded_events (trace exec);
          collected = handler_collect (w_getTask W) reg taskId evs;
          run = \<lparr>run_registry = reg, run_memory = end_memory exec, run_plan = Some plan,
                 calls = requests exec, received = evs, lookups = snd collected,
                 final_state = Failed\<rparr>
      in case failure exec of
           Some e \<Rightarrow> run
         | None \<Rightarrow>
             (let asking = filter (\<lambda>(agentName, ev). is_input_required ev) evs;
                  waitingForInput = (asking \<noteq> []);
                  agentNeedingInput = (if asking = [] then [] else fst (last asking))
              in if waitingForInput \<and> agentNeedingInput \<noteq> [] then run\<lparr>final_state := InputRequired\<rparr>
                 else
                   (case integrateAgentResponses (w_ai W) taskId conversation plan (fst collected) of
                      (composedResponse, prompts) \<Rightarrow>
                        (case addAgentResponse (end_memory exec) later conversation
                                \<lparr>role = ''agent'', parts = [TextPart composedResponse]\<rparr> of
                           Inl e \<Rightarrow> run
                         | Inr mem' \<Rightarrow> run\<lparr>run_memory := mem', final_state := Completed\<rparr>))))"

definition handler ::
  "World \<Rightarrow> AgentRegistry \<Rightarrow> ConversationMemory \<Rightarrow> nat \<Rightarrow> nat \<Rightarrow> string \<Rightarrow> string option \<Rightarrow> message
     \<Rightarrow> HandlerRun" where
  "handler W reg mem now later taskId sessionId userMsg =
     (let userText = toLowerCase (parts_text (parts userMsg));
          previousState =
            (case getConversation mem (if truthy sessionId then the sessionId else []) of
               None \<Rightarrow> None
             | Some conversation \<Rightarrow> lastState conversation)
      in if (case previousState of None \<Rightarrow> False | Some st \<Rightarrow> inputRequiredAgent st \<noteq> [])
         then handler_resume W reg mem now sessionId userMsg (the previousState)
         else
           (case handler_command W reg now userText of
              Some (reg', fin) \<Rightarrow> idle_run reg' mem fin
            | None \<Rightarrow>
                (case planExecution (w_analyse W) (w_uuid W) reg mem now taskId userMsg
                        sessionId of
                   (Inl e, mem') \<Rightarrow> idle_run reg mem' Failed
                 | (Inr (plan, conversation), mem') \<Rightarrow>
                     if length (selectedAgents plan) = 0
                     then (idle_run reg mem' Failed)\<lparr>run_plan := Some plan\<rparr>
                     else handler_execute W reg mem' now later taskId conversation plan)))"

section \<open>Notions of the specification and example worlds\<close>

text \<open>
  The specification's "case-insensitive substring": \<open>t\<close> occurs in \<open>s\<close> when case is
  ignored on both sides.
\<close>

definition contains_ignoring_case :: "string \<Rightarrow> string \<Rightarrow> bool" where
  "contains_ignoring_case s t = str_includes (toLowerCase s) (toLowerCase t)"

text \<open>
  The keys of the capability index are lower-case. \<open>addAgent\<close>, the only writer of the
  index, lower-cases every capability it indexes.
\<close>

definition lower_index :: "AgentRegistry \<Rightarrow> bool" where
  "lower_index reg = list_all (\<lambda>(cap, ids). toLowerCase cap = cap) (agentsByCapability reg)"

definition comedy_card :: AgentCard where
  "comedy_card =
     \<lparr>card_name = ''Movie Agent'', card_description = None,
      card_skills = [\<lparr>skill_id = ''movies'', skill_name = ''Movies'',
                      skill_tags = Some [''Comedy''], skill_description = None\<rparr>]\<rparr>"

definition comedy_registry :: AgentRegistry where
  "comedy_registry = snd (addAgent empty_registry 0 ''http://localhost:41243'' (Some comedy_card))"

definition coder_card :: AgentCard where
  "coder_card = \<lparr>card_name = ''Coder Agent'', card_description = None, card_skills = []\<rparr>"

text \<open>A registry with the two default agents, and a conversation with one user turn.\<close>

definition two_agents :: AgentRegistry where
  "two_agents =
     snd (addAgent (snd (addAgent empty_registry 0 ''http://localhost:41242'' (Some coder_card)))
            0 ''http://localhost:41243'' (Some comedy_card))"

definition user_says :: "string \<Rightarrow> message" where
  "user_says t = \<lparr>role = ''user'', parts = [TextPart t]\<rparr>"

definition one_turn :: "string \<Rightarrow> ConversationMemory" where
  "one_turn t =
     (case addUserMessage (snd (createConversation Map.empty 0 ''conv-1'' [])) 0 ''conv-1''
             (user_says t) None of
        Inr mem \<Rightarrow> mem
      | Inl e \<Rightarrow> Map.empty)"

definition progress :: "string \<Rightarrow> event" where
  "progress t = StatusUpdate Working (Some \<lparr>role = ''agent'', parts = [TextPart t]\<rparr>)"

definition plan_for :: "string list \<Rightarrow> string option \<Rightarrow> TaskPlan" where
  "plan_for names waiting =
     \<lparr>taskDescription = ''request'', isMultiAgentTask = (length names > 1),
      selectedAgents = names, plan_subTasks = [], executionOrder = Parallel,
      needsCoordination = False, waitingSubTaskId = waiting, continueWithAgent = None,
      continuationContext = None\<rparr>"

text \<open>
  The fan-in scenario: the stream of Coder yields one event and ends, the stream of Movie
  yields three events and ends; Movie's events arrive after Coder's stream has ended.
\<close>

definition fan_in_send :: "string \<Rightarrow> SendParams \<Rightarrow> StreamSource option" where
  "fan_in_send u params =
     (if u = ''http://localhost:41242''
      then Some \<lparr>items = [(1, progress ''a1'')], closes_at = 2, fails_at_end = False\<rparr>
      else Some \<lparr>items = [(3, progress ''b1''), (4, progress ''b2''), (5, progress ''b3'')],
                 closes_at = 6, fails_at_end = False\<rparr>)"

definition fan_in_run :: ExecResult where
  "fan_in_run =
     executeTaskPlan fan_in_send (\<lambda>p. None) two_agents (one_turn ''hello'') 0 ''T1'' ''conv-1''
       (plan_for [''Coder'', ''Movie''] None)"

text \<open>A stream that yields one completed status and ends.\<close>

definition completing_send :: "string \<Rightarrow> SendParams \<Rightarrow> StreamSource option" where
  "completing_send u params =
     Some \<lparr>items = [(1, StatusUpdate Completed (Some \<lparr>role = ''agent'', parts = [TextPart ''done'']\<rparr>))],
           closes_at = 2, fails_at_end = False\<rparr>"

text \<open>
  The specification's "every sub-task that reached a terminal event has its terminal
  record fetched by point lookup on the id under which it was dispatched", read on a run
  of the handler: for every terminal event received from an agent, a call was made to that
  agent, and a lookup was made for it with the id of that call.
\<close>

definition terminal_records_fetched :: "HandlerRun \<Rightarrow> bool" where
  "terminal_records_fetched run =
     list_all (\<lambda>(n, ev). is_terminal ev \<longrightarrow>
                 list_ex (\<lambda>(m, p). m = n \<and> (n, param_id p) \<in> set (lookups run)) (calls run))
              (received run)"

text \<open>
  A world in which every stream yields one completed status, the planner selects the
  Movie Agent, and every agent holds a record for every id.
\<close>

definition demo_world :: World where
  "demo_world =
     \<lparr>w_send = completing_send,
      w_ai = (\<lambda>p. None),
      w_analyse = (\<lambda>userText availableAgents summary.
                     Some \<lparr>an_selectedAgents = Some [''Movie Agent''], an_isMultiAgentTask = None,
                           an_subTasks = None, an_executionOrder = None,
                           an_needsCoordination = None, an_continueWithAgent = None\<rparr>),
      w_getTask = (\<lambda>u i. Some \<lparr>status_message = Some \<lparr>role = ''agent'', parts = [TextPart ''done'']\<rparr>,
                                artifacts = None\<rparr>),
      w_agentCard = (\<lambda>u. None),
      w_uuid = ''0''\<rparr>"

text \<open>The conversation after the Movie Agent asked for input under the id \<open>T1-movie-agent\<close>.\<close>

definition movie_agent_waiting :: ConversationMemory where
  "movie_agent_waiting =
     (case setInputRequiredState (one_turn ''a film please'') 1 ''conv-1'' ''Movie Agent''
             ''T1-movie-agent'' of
        Inr mem \<Rightarrow> mem
      | Inl e \<Rightarrow> Map.empty)"

definition resumed_by_handler :: HandlerRun where
  "resumed_by_handler =
     handler demo_world two_agents movie_agent_waiting 2 3 ''T2'' (Some ''conv-1'') (user_says ''1995'')"

definition fresh_by_handler :: HandlerRun where
  "fresh_by_handler =
     handler demo_world two_agents Map.empty 2 3 ''T2'' (Some ''conv-1'') (user_says ''a film please'')"



definition suspended_memory :: ConversationMemory where
  "suspended_memory =
     (case setInputRequiredState (one_turn ''hello'') 1 ''conv-1'' ''Movie'' ''T1-movie'' of
        Inr mem \<Rightarrow> mem
      | Inl e \<Rightarrow> Map.empty)"

definition blank_results :: "(string \<times> Task option) list" where
  "blank_results =
     [(''Movie'', None),
      (''Coder'', Some \<lparr>status_message = Some \<lparr>role = ''agent'', parts = [TextPart '' '', FilePart]\<rparr>,
                       artifacts = Some [\<lparr>artifact_name = None, artifact_parts = [DataPart]\<rparr>]\<rparr>)]"

section \<open>Properties\<close>

subsection \<open>Sub-task identity\<close>

text \<open>
  C3. The id of a freshly dispatched sub-task is a function of the parent task id and the
  agent name alone: for one agent name, two parent task ids give the same sub-task id
  exactly when they are the same parent task id. So the same pair gives the same id, and
  distinct parent tasks give distinct ids.
\<close>

theorem generateSubTaskId_deterministic_injective:
  "(generateSubTaskId p1 a = generateSubTaskId p2 a) = (p1 = p2)"
  by (simp add: generateSubTaskId_def)

theorem generateSubTaskId_witness:
  "generateSubTaskId ''T1'' ''Movie'' = ''T1-movie'' \<and>
   generateSubTaskId ''T2'' ''Movie'' = ''T2-movie'' \<and>
   (generateSubTaskId ''T1'' ''Movie'' = generateSubTaskId ''T2'' ''Movie'') = (''T1'' = ''T2'')"
  using generateSubTaskId_deterministic_injective [of "''T1''" "''Movie''" "''T2''"]
  by (simp add: generateSubTaskId_def toLowerCase_def lower_char_def is_space_def)

subsection \<open>The example worlds, evaluated\<close>

lemma one_turn_eval:
  "one_turn t =
     [''conv-1'' \<mapsto>
        \<lparr>conv_id = ''conv-1'', startedAt = 0, lastUpdatedAt = 0,
         turns = [\<lparr>userMessage = user_says t, agentResponse = None, timestamp = 0,
                   turn_taskId = None, subTasks = None\<rparr>],
         metadata = [], lastState = None\<rparr>]"
  by (simp add: one_turn_def createConversation_def addUserMessage_def Let_def)

lemma suspended_memory_eval:
  "suspended_memory =
     [''conv-1'' \<mapsto>
        \<lparr>conv_id = ''conv-1'', startedAt = 0, lastUpdatedAt = 1,
         turns = [\<lparr>userMessage = user_says ''hello'', agentResponse = None, timestamp = 0,
                   turn_taskId = None, subTasks = None\<rparr>],
         metadata = [],
         lastState = Some \<lparr>inputRequiredAgent = ''Movie'', subTaskId = ''T1-movie'',
                            requestTimestamp = 1\<rparr>\<rparr>]"
  by (simp add: suspended_memory_def one_turn_eval setInputRequiredState_def)

subsection \<open>Conversation memory\<close>

text \<open>
  C6. A conversation holds at most one pending suspension (\<open>lastState\<close> is a single
  optional slot), and the last write wins: after setting the suspension of one existing
  conversation twice, the lookup gives the second agent and sub-task id, and not the first
  pair when the two differ.
\<close>

theorem setInputRequiredState_last_write_wins:
  assumes "getConversation mem cid = Some c"
  shows "\<exists>m1 m2 c'.
           setInputRequiredState mem t1 cid a1 s1 = Inr m1 \<and>
           setInputRequiredState m1 t2 cid a2 s2 = Inr m2 \<and>
           getConversation m2 cid = Some c' \<and>
           lastState c' = Some \<lparr>inputRequiredAgent = a2, subTaskId = s2, requestTimestamp = t2\<rparr> \<and>
           ((a1, s1) \<noteq> (a2, s2) \<longrightarrow>
              lastState c' \<noteq> Some \<lparr>inputRequiredAgent = a1, subTaskId = s1, requestTimestamp = t1\<rparr>)"
  using assms by (auto simp: setInputRequiredState_def getConversation_def)

theorem setInputRequiredState_last_write_wins_witness:
  "getConversation (one_turn ''hello'') ''conv-1'' \<noteq> None \<and>
   (\<exists>m1 m2 c'.
      setInputRequiredState (one_turn ''hello'') 1 ''conv-1'' ''Movie'' ''T1-movie'' = Inr m1 \<and>
      setInputRequiredState m1 2 ''conv-1'' ''Coder'' ''T1-coder'' = Inr m2 \<and>
      getConversation m2 ''conv-1'' = Some c' \<and>
      lastState c' = Some \<lparr>inputRequiredAgent = ''Coder'', subTaskId = ''T1-coder'',
                            requestTimestamp = 2\<rparr> \<and>
      lastState c' \<noteq> Some \<lparr>inputRequiredAgent = ''Movie'', subTaskId = ''T1-movie'',
                              requestTimestamp = 1\<rparr>)"
proof -
  obtain c where c: "getConversation (one_turn ''hello'') ''conv-1'' = Some c"
    by (simp add: one_turn_eval getConversation_def)
  from setInputRequiredState_last_write_wins
         [OF c, of 1 "''Movie''" "''T1-movie''" 2 "''Coder''" "''T1-coder''"]
  show ?thesis using c by auto
qed

text \<open>
  C7. On a conversation id that is not in the store, recording a user turn, an agent
  response or a sub-task dispatch and setting a suspension each fail with the error
  thrown for a missing conversation; the lookup gives absence and no error; clearing the
  suspension leaves the store as it is and raises nothing.
\<close>

theorem unknown_conversation_contract:
  assumes "cid \<notin> dom mem"
  shows "addUserMessage mem t cid msg tid = Inl (not_found cid) \<and>
         addAgentResponse mem t cid msg = Inl (not_found_or_no_turns cid) \<and>
         addSubTaskInfo mem cid agentName sid ok = Inl (not_found_or_no_turns cid) \<and>
         setInputRequiredState mem t cid agentName sid = Inl (not_found cid) \<and>
         getConversation mem cid = None \<and>
         clearInputRequiredState mem cid = mem"
  using assms
  by (auto simp: addUserMessage_def addAgentResponse_def addSubTaskInfo_def
        setInputRequiredState_def getConversation_def clearInputRequiredState_def)

theorem unknown_conversation_contract_witness:
  "''conv-2'' \<notin> dom (one_turn ''hello'') \<and>
   addUserMessage (one_turn ''hello'') 1 ''conv-2'' (user_says ''hi'') None =
     Inl (Error ''Conversation with ID conv-2 not found'') \<and>
   addAgentResponse (one_turn ''hello'') 1 ''conv-2'' (user_says ''hi'') =
     Inl (Error ''Conversation with ID conv-2 not found or has no turns'') \<and>
   addSubTaskInfo (one_turn ''hello'') ''conv-2'' ''Movie'' ''T1-movie'' True =
     Inl (Error ''Conversation with ID conv-2 not found or has no turns'') \<and>
   setInputRequiredState (one_turn ''hello'') 1 ''conv-2'' ''Movie'' ''T1-movie'' =
     Inl (Error ''Conversation with ID conv-2 not found'') \<and>
   getConversation (one_turn ''hello'') ''conv-2'' = None \<and>
   clearInputRequiredState (one_turn ''hello'') ''conv-2'' = one_turn ''hello''"
proof -
  have unknown: "''conv-2'' \<notin> dom (one_turn ''hello'')"
    by (simp add: one_turn_eval)
  from unknown_conversation_contract [OF unknown, of 1 "user_says ''hi''" None "''Movie''" "''T1-movie''" True]
  show ?thesis using unknown
    by (simp add: not_found_def not_found_or_no_turns_def)
qed

text \<open>
  C10. \<open>createConversation\<close> on an id that the store already holds puts a fresh
  conversation in its place: whatever the store held, the lookup of the id afterwards
  gives the conversation just created, whose turn list is empty and which has no pending
  suspension, and the summary of the id is that of a conversation without history.
\<close>

theorem createConversation_replaces:
  "getConversation (snd (createConversation mem t cid meta)) cid =
     Some (fst (createConversation mem t cid meta)) \<and>
   fst (createConversation mem t cid meta) =
     \<lparr>conv_id = cid, startedAt = t, lastUpdatedAt = t, turns = [], metadata = meta,
      lastState = None\<rparr> \<and>
   getConversationSummary (snd (createConversation mem t cid meta)) cid n =
     ''No conversation history.''"
  by (simp add: createConversation_def getConversation_def getConversationSummary_def Let_def)

theorem createConversation_replaces_witness:
  "map_option (\<lambda>c. (length (turns c), lastState c)) (getConversation suspended_memory ''conv-1'') =
     Some (1, Some \<lparr>inputRequiredAgent = ''Movie'', subTaskId = ''T1-movie'', requestTimestamp = 1\<rparr>) \<and>
   map_option (\<lambda>c. (length (turns c), lastState c))
     (getConversation (snd (createConversation suspended_memory 2 ''conv-1'' [])) ''conv-1'') =
     Some (0, None)"
proof -
  have before: "map_option (\<lambda>c. (length (turns c), lastState c)) (getConversation suspended_memory ''conv-1'') =
     Some (1, Some \<lparr>inputRequiredAgent = ''Movie'', subTaskId = ''T1-movie'', requestTimestamp = 1\<rparr>)"
    by (simp add: suspended_memory_eval getConversation_def)
  from createConversation_replaces [of suspended_memory 2 "''conv-1''" "[]" 5]
  show ?thesis using before by simp
qed

subsection \<open>Zero-response integration\<close>

text \<open>
  C9. When no agent produced extractable text, the integration step submits no prompt to
  the language model and returns one of two literal explanations: the first when the plan
  carries a \<open>waitingSubTaskId\<close> (as a JavaScript condition: present and not the empty
  string), the second otherwise. The two literals differ.
\<close>

theorem zero_response_fallback:
  assumes "collect_responses results = []"
  shows "integrateAgentResponses ai taskId conversationId taskPlan results =
           ((if truthy (waitingSubTaskId taskPlan)
             then ''I wasn't able to process your response. Please try asking your question again from the beginning.''
             else ''I couldn't determine which specialized agents to use for this task. Please try a different request or check that agents are available.''),
            []) \<and>
         ''I wasn't able to process your response. Please try asking your question again from the beginning.'' \<noteq>
         ''I couldn't determine which specialized agents to use for this task. Please try a different request or check that agents are available.''"
  using assms by (simp add: integrateAgentResponses_def)

theorem zero_response_fallback_witness:
  "collect_responses blank_results = [] \<and>
   integrateAgentResponses (\<lambda>p. Some ''composed'') ''T2'' ''conv-1''
       (plan_for [''Movie'', ''Coder''] (Some ''T1-movie'')) blank_results =
     (''I wasn't able to process your response. Please try asking your question again from the beginning.'', []) \<and>
   integrateAgentResponses (\<lambda>p. Some ''composed'') ''T2'' ''conv-1''
       (plan_for [''Movie'', ''Coder''] None) blank_results =
     (''I couldn't determine which specialized agents to use for this task. Please try a different request or check that agents are available.'', [])"
proof -
  have blank: "collect_responses blank_results = []"
    by (simp add: blank_results_def result_text_def parts_text_def artifacts_text_def
          trim_nonempty_def is_space_def)
  from zero_response_fallback [OF blank, of "\<lambda>p. Some ''composed''" "''T2''" "''conv-1''"
         "plan_for [''Movie'', ''Coder''] (Some ''T1-movie'')"]
       zero_response_fallback [OF blank, of "\<lambda>p. Some ''composed''" "''T2''" "''conv-1''"
         "plan_for [''Movie'', ''Coder''] None"]
  show ?thesis using blank
    by (simp add: plan_for_def truthy_def)
qed

subsection \<open>Agent registry\<close>

lemma lower_char_idem: "lower_char (lower_char c) = lower_char c"
  by (simp add: lower_char_def split: option.splits if_splits)

lemma toLowerCase_idem: "toLowerCase (toLowerCase s) = toLowerCase s"
  by (simp add: toLowerCase_def lower_char_idem)

lemma set_foldl_set_add: "set (foldl (\<lambda>a x. set_add x a) acc xs) = set acc \<union> set xs"
  by (induction xs arbitrary: acc) (auto simp: set_add_def)

lemma set_match_index:
  "set (foldl (\<lambda>acc' (indexedCapability, agentIds).
                 if str_includes indexedCapability low
                 then foldl (\<lambda>a aid. set_add aid a) acc' agentIds
                 else acc') acc idx)
   = set acc \<union> {aid. \<exists>(cap, ids) \<in> set idx. str_includes cap low \<and> aid \<in> set ids}"
proof (induction idx arbitrary: acc)
  case Nil
  show ?case by simp
next
  case (Cons e idx)
  obtain cap ids where e: "e = (cap, ids)" by (cases e)
  show ?case
    unfolding e by (auto simp: Cons.IH set_foldl_set_add)
qed

lemma set_matchingAgentIds_from:
  "set (foldl (\<lambda>acc capability.
                 foldl (\<lambda>acc' (indexedCapability, agentIds).
                          if str_includes indexedCapability (toLowerCase capability)
                          then foldl (\<lambda>a aid. set_add aid a) acc' agentIds
                          else acc')
                       acc idx)
           acc0 caps)
   = set acc0 \<union> {aid. \<exists>tok \<in> set caps. \<exists>(cap, ids) \<in> set idx.
                        str_includes cap (toLowerCase tok) \<and> aid \<in> set ids}"
proof (induction caps arbitrary: acc0)
  case Nil
  show ?case by simp
next
  case (Cons tok caps)
  show ?case
    by (simp add: Cons.IH set_match_index) blast
qed

lemma set_matchingAgentIds:
  "set (matchingAgentIds reg caps) =
     {aid. \<exists>tok \<in> set caps. \<exists>(cap, ids) \<in> set (agentsByCapability reg).
             str_includes cap (toLowerCase tok) \<and> aid \<in> set ids}"
  unfolding matchingAgentIds_def Let_def by (simp add: set_matchingAgentIds_from)

lemma set_map_filter: "set (List.map_filter f xs) = {y. \<exists>x \<in> set xs. f x = Some y}"
  by (induction xs) (auto simp: List.map_filter_simps split: option.splits)

lemma set_findAgentsByCapabilities:
  "set (findAgentsByCapabilities reg caps) =
     {a. status a = Active \<and>
         (\<exists>aid \<in> set (matchingAgentIds reg caps). map_of (agents reg) aid = Some a)}"
  by (auto simp: findAgentsByCapabilities_def set_map_filter)

lemma lower_index_includes:
  "lower_index reg \<Longrightarrow> (cap, ids) \<in> set (agentsByCapability reg) \<Longrightarrow>
   str_includes cap (toLowerCase tok) = contains_ignoring_case cap tok"
  by (auto simp: lower_index_def contains_ignoring_case_def list_all_iff)

lemma findAgentsByCapabilities_set:
  assumes "lower_index reg"
  shows "set (findAgentsByCapabilities reg toks) =
     {a. status a = Active \<and>
         (\<exists>tok \<in> set toks. \<exists>(cap, ids) \<in> set (agentsByCapability reg).
             contains_ignoring_case cap tok \<and> (\<exists>aid \<in> set ids. map_of (agents reg) aid = Some a))}"
  using lower_index_includes[OF assms]
  by (simp add: set_findAgentsByCapabilities set_matchingAgentIds) blast

lemma checkAgentsHealth_index: "agentsByCapability (checkAgentsHealth reg now alive) = agentsByCapability reg"
  by (simp add: checkAgentsHealth_def)

lemma checkAgentsHealth_agent: "map_of (agents (checkAgentsHealth reg now alive)) aid =
   map_option (\<lambda>agent. agent\<lparr>status := (if alive (url agent) then Active else Unreachable),
                              lastChecked := now\<rparr>) (map_of (agents reg) aid)"
  by (simp add: checkAgentsHealth_def map_of_map)


lemma lower_index_iff:
  "lower_index reg = (\<forall>cap \<in> fst ` set (agentsByCapability reg). toLowerCase cap = cap)"
  by (auto simp: lower_index_def list_all_iff)

lemma lower_index_empty: "lower_index empty_registry"
  by (simp add: lower_index_def empty_registry_def)

lemma skill_capabilities_lower:
  "cap \<in> set (skill_capabilities sk) \<Longrightarrow> toLowerCase cap = cap"
  by (auto simp: skill_capabilities_def toLowerCase_idem split: option.splits if_splits)

lemma extractCapabilities_lower:
  "cap \<in> set (extractCapabilities c) \<Longrightarrow> toLowerCase cap = cap"
  by (auto simp: extractCapabilities_def set_foldl_set_add skill_capabilities_lower
        toLowerCase_idem split: if_splits)

lemma index_capability_keys:
  "fst ` set (index_capability aid idx cap) = insert cap (fst ` set idx)"
  by (auto simp: index_capability_def Let_def dom_update split: option.splits)

lemma foldl_index_capability_keys:
  "fst ` set (foldl (index_capability aid) idx caps) = set caps \<union> fst ` set idx"
  by (induction caps arbitrary: idx) (auto simp: index_capability_keys)

lemma addAgent_lower_index:
  assumes "lower_index reg"
  shows "lower_index (snd (addAgent reg now u fetched))"
proof (cases fetched)
  case None
  with assms show ?thesis by (simp add: addAgent_def)
next
  case (Some c)
  have "fst ` set (agentsByCapability (snd (addAgent reg now u fetched))) =
          set (extractCapabilities c) \<union> fst ` set (agentsByCapability reg)"
    by (simp add: addAgent_def Let_def Some foldl_index_capability_keys)
  with assms show ?thesis
    unfolding lower_index_iff using extractCapabilities_lower by blast
qed

lemma checkAgentsHealth_lower_index:
  "lower_index reg \<Longrightarrow> lower_index (checkAgentsHealth reg now alive)"
  by (simp add: lower_index_def checkAgentsHealth_index)

lemma checkAgentsHealth_results_alive:
  "a \<in> set (findAgentsByCapabilities (checkAgentsHealth reg now alive) toks) \<Longrightarrow> alive (url a)"
  by (auto simp: set_findAgentsByCapabilities checkAgentsHealth_agent split: if_splits)

text \<open>
  C8. In a registry whose index keys are lower-case (every registry that \<open>addAgent\<close> and
  \<open>checkAgentsHealth\<close> build from the empty one), \<open>findAgentsByCapabilities\<close> returns
  exactly the active agents stored under an id that the index lists for a capability
  containing one of the requested tokens, case ignored. A health check leaves the index as
  it is, and after it the results hold only agents whose probe succeeded: an agent found
  unreachable is no longer returned, and its index entry stays.
\<close>

theorem findAgentsByCapabilities_discovery:
  assumes "lower_index reg"
  shows "set (findAgentsByCapabilities reg toks) =
           {a. status a = Active \<and>
               (\<exists>tok \<in> set toks. \<exists>(cap, ids) \<in> set (agentsByCapability reg).
                  contains_ignoring_case cap tok \<and>
                  (\<exists>aid \<in> set ids. map_of (agents reg) aid = Some a))} \<and>
         agentsByCapability (checkAgentsHealth reg now alive) = agentsByCapability reg \<and>
         (\<forall>a \<in> set (findAgentsByCapabilities (checkAgentsHealth reg now alive) toks).
            alive (url a))"
  using findAgentsByCapabilities_set [OF assms] checkAgentsHealth_index checkAgentsHealth_results_alive by blast

lemma comedy_registry_eval:
  "agentsByCapability comedy_registry = [(''movies'', [''agent-http---localhost-41243'']), (''comedy'', [''agent-http---localhost-41243''])]"
  by (simp add: comedy_registry_def comedy_card_def addAgent_def empty_registry_def
        generateAgentId_def is_word_char_def extractCapabilities_def skill_capabilities_def
        truthy_def toLowerCase_def lower_char_def set_add_def index_capability_def Let_def)

theorem findAgentsByCapabilities_discovery_witness:
  "lower_index comedy_registry \<and>
   map agent_name (findAgentsByCapabilities comedy_registry [''com'']) = [''Movie Agent''] \<and>
   findAgentsByCapabilities (checkAgentsHealth comedy_registry 1 (\<lambda>u. False)) [''com''] = [] \<and>
   agentsByCapability (checkAgentsHealth comedy_registry 1 (\<lambda>u. False)) =
     [(''movies'', [''agent-http---localhost-41243'']),
      (''comedy'', [''agent-http---localhost-41243''])]"
proof -
  have inv: "lower_index comedy_registry"
    unfolding comedy_registry_def by (rule addAgent_lower_index [OF lower_index_empty])
  have active: "map agent_name (findAgentsByCapabilities comedy_registry [''com'']) = [''Movie Agent'']"
    by (simp add: comedy_registry_def comedy_card_def addAgent_def empty_registry_def
        generateAgentId_def is_word_char_def extractCapabilities_def skill_capabilities_def
        truthy_def toLowerCase_def lower_char_def set_add_def index_capability_def Let_def
        findAgentsByCapabilities_def matchingAgentIds_def List.map_filter_simps)
  from findAgentsByCapabilities_discovery [OF inv, of "[''com'']" 1 "\<lambda>u. False"]
  have "agentsByCapability (checkAgentsHealth comedy_registry 1 (\<lambda>u. False)) =
          agentsByCapability comedy_registry"
    and "set (findAgentsByCapabilities (checkAgentsHealth comedy_registry 1 (\<lambda>u. False)) [''com'']) = {}"
    by auto
  with inv active show ?thesis
    by (simp add: comedy_registry_eval)
qed

subsection \<open>The orchestration engine\<close>

text \<open>
  Every round calls \<open>next()\<close> on every live stream, whichever stream won the round
  before.
\<close>

lemma mux_round_pulls_every_live_stream:
  assumes "mux_round taskId cid plan abn s = Some (rd, s')"
  shows "map fst (pulled rd) = map fst (activeStreams s) \<and> issued_at rd = mux_now s"
  using assms unfolding mux_round_def Let_def
  by (auto simp: split_def comp_def split: if_splits option.splits sum.splits prod.splits)

text \<open>
  The generator yields at most as many events as the live streams hold, and a round
  takes an event from every live stream that has one while it yields at most one of them.
  So two streams that hold one and three events never give four yielded events, whatever
  the instants at which the events arrive.
\<close>

lemma mux_round_pending:
  assumes step: "mux_round taskId cid plan abn s = Some (rd, s')"
  shows "pending_total s' + (case yielded rd of None \<Rightarrow> 0 | Some y \<Rightarrow> 1) \<le> pending_total s"
proof -
  define live where "live = activeStreams s"
  define adv where "adv = (\<lambda>(n::string, it::AsyncIterator). (n, snd (snd (next_pull (mux_now s) it))))"
  define prom where
    "prom = (\<lambda>(n::string, it::AsyncIterator). (n, fst (next_pull (mux_now s) it), fst (snd (next_pull (mux_now s) it))))"
  define g where "g = (\<lambda>(n::string, it::AsyncIterator). length (pending_items it))"
  have ne: "live \<noteq> []"
    using step by (auto simp: mux_round_def live_def split: if_splits)
  have advanced:
    "map (\<lambda>(agentName, r, res, it'). (agentName, it'))
       (map (\<lambda>(agentName, it). (agentName, next_pull (mux_now s) it)) live) = map adv live"
    by (simp add: adv_def split_def)
  have promises:
    "map (\<lambda>(agentName, r, res, it'). (agentName, r, res))
       (map (\<lambda>(agentName, it). (agentName, next_pull (mux_now s) it)) live) = map prom live"
    by (simp add: prom_def split_def)
  obtain w r res where w: "race (hd (map prom live)) (tl (map prom live)) = (w, r, res)"
    by (cases "race (hd (map prom live)) (tl (map prom live))")
  have "(w, r, res) \<in> set (map prom live)"
    using race_mem [of "hd (map prom live)" "tl (map prom live)"] ne w by simp
  then obtain it where it: "(w, it) \<in> set live" and r: "fst (next_pull (mux_now s) it) = r"
    and res: "fst (snd (next_pull (mux_now s) it)) = res"
    by (auto simp: prom_def)
  have pull: "next_pull (mux_now s) it = (r, res, snd (snd (next_pull (mux_now s) it)))"
    using r res by (cases "next_pull (mux_now s) it") auto
  have le: "g (adv x) \<le> g x" for x
  proof (cases x)
    case (Pair n i)
    obtain r0 res0 i' where p: "next_pull (mux_now s) i = (r0, res0, i')"
      by (cases "next_pull (mux_now s) i") auto
    from next_pull_pending [OF p] show ?thesis
      by (cases res0) (auto simp: Pair g_def adv_def p)
  qed
  have sum_le: "sum_list (map g (map adv live)) \<le> sum_list (map g live)"
    by (rule sum_map_le) (rule le)
  have streams:
    "(activeStreams s' = AList.delete w (map adv live) \<or> activeStreams s' = map adv live) \<and>
     (yielded rd \<noteq> None \<longrightarrow> res \<noteq> None)"
    using step w unfolding mux_round_def live_def [symmetric] Let_def advanced promises
    by (auto split: if_splits option.splits sum.splits)
  have del: "AList.delete w xs = filter (\<lambda>x. fst x \<noteq> w) xs" for xs :: "(string \<times> AsyncIterator) list"
    by (induction xs) auto
  have total: "pending_total s = sum_list (map g live)"
    "pending_total s' = sum_list (map g (activeStreams s'))"
    by (simp_all add: pending_total_def g_def live_def)
  have filt: "sum_list (map g (filter (\<lambda>x. fst x \<noteq> w) (map adv live)))
                     \<le> sum_list (map g (map adv live))"
    by (rule sum_filter_le)
  show ?thesis
  proof (cases "yielded rd")
    case None
    then show ?thesis using streams sum_le filt by (auto simp: total del)
  next
    case (Some y)
    with streams obtain ev where "res = Some ev" by auto
    with next_pull_pending [OF pull]
    have "g (adv (w, it)) < g (w, it)" by (auto simp: g_def adv_def)
    with it have "sum_list (map g (map adv live)) < sum_list (map g live)"
      using sum_map_less [of live g adv "(w, it)"] le by blast
    then show ?thesis using streams filt Some by (auto simp: total del)
  qed
qed

lemma yielded_events_Cons:
  "yielded_events (rd # rds) =
     (case yielded rd of None \<Rightarrow> yielded_events rds | Some y \<Rightarrow> y # yielded_events rds)"
  by (cases "yielded rd") (simp_all add: yielded_events_def List.map_filter_simps)

lemma yields_le_pending:
  "length (yielded_events (fst (multiplex taskId cid plan abn s))) \<le> pending_total s"
proof (induction taskId cid plan abn s rule: multiplex.induct)
  case (1 taskId cid plan abn s)
  show ?case
  proof (cases "mux_round taskId cid plan abn s")
    case None
    then show ?thesis
      by (simp add: multiplex.simps [of taskId cid plan abn s] yielded_events_def List.map_filter_simps)
  next
    case (Some a)
    obtain rd s' where a: "a = (rd, s')" by (cases a)
    obtain rds fin where m: "multiplex taskId cid plan abn s' = (rds, fin)"
      by (cases "multiplex taskId cid plan abn s'")
    from "1.IH" [OF Some a [symmetric]] m
    have ih: "length (yielded_events rds) \<le> pending_total s'" by simp
    have unfold: "multiplex taskId cid plan abn s = (rd # rds, fin)"
      by (simp add: multiplex.simps [of taskId cid plan abn s] Some a m)
    from mux_round_pending [OF Some [unfolded a]]
    have "pending_total s' + (case yielded rd of None \<Rightarrow> 0 | Some y \<Rightarrow> 1) \<le> pending_total s" .
    with ih show ?thesis
      by (cases "yielded rd") (simp_all add: unfold yielded_events_Cons)
  qed
qed

lemma two_streams_first_round:
  assumes "mux_round taskId cid plan abn
             \<lparr>mux_now = start,
              activeStreams =
                [(''Coder'', asyncIterator \<lparr>items = [(ta, a1)], closes_at = ca, fails_at_end = fa\<rparr>),
                 (''Movie'', asyncIterator \<lparr>items = [(tb1, b1), (tb2, b2), (tb3, b3)],
                                            closes_at = cb, fails_at_end = fb\<rparr>)],
              memory = mem, inputRequiredAgents = w, thrown = None\<rparr> = Some (rd, s')"
  shows "pending_total s' \<le> 2"
  using assms unfolding mux_round_def
  by (auto simp: Let_def next_pull_def asyncIterator_def pending_total_def
        split: if_splits option.splits sum.splits)


lemma two_streams_never_yield_four:
  "length (yielded_events (fst (multiplex taskId cid plan abn
             \<lparr>mux_now = start,
              activeStreams =
                [(''Coder'', asyncIterator \<lparr>items = [(ta, a1)], closes_at = ca, fails_at_end = fa\<rparr>),
                 (''Movie'', asyncIterator \<lparr>items = [(tb1, b1), (tb2, b2), (tb3, b3)],
                                            closes_at = cb, fails_at_end = fb\<rparr>)],
              memory = mem, inputRequiredAgents = w, thrown = None\<rparr>))) \<le> 3"
  (is "length (yielded_events (fst (multiplex taskId cid plan abn ?s))) \<le> 3")
proof (cases "mux_round taskId cid plan abn ?s")
  case None
  then show ?thesis
    by (simp add: multiplex.simps [of taskId cid plan abn ?s] yielded_events_def
          List.map_filter_simps)
next
  case (Some a)
  obtain rd s' where a: "a = (rd, s')" by (cases a)
  obtain rds fin where m: "multiplex taskId cid plan abn s' = (rds, fin)"
    by (cases "multiplex taskId cid plan abn s'")
  have unfold: "multiplex taskId cid plan abn ?s = (rd # rds, fin)"
    by (simp add: multiplex.simps [of taskId cid plan abn ?s] Some a m)
  from two_streams_first_round [OF Some [unfolded a]]
  have "pending_total s' \<le> 2" .
  moreover from yields_le_pending [of taskId cid plan abn s'] m
  have "length (yielded_events rds) \<le> pending_total s'" by simp
  ultimately show ?thesis
    by (cases "yielded rd") (simp_all add: unfold yielded_events_Cons)
qed

text \<open>
  The ids of the calls made by \<open>executeTaskPlan\<close>: under a plan that carries a
  \<open>waitingSubTaskId\<close>, every call is made with that id and the latest user message;
  otherwise every call is made with the id derived from the parent task id and the agent
  name. The lookups of the handler are always made with the derived id.
\<close>

lemma open_stream_sent:
  "sent (snd (open_stream send cid n agent sid msg st)) =
     sent st @ [(n, \<lparr>param_id = sid, param_sessionId = Some cid, param_message = msg\<rparr>)]"
  by (simp add: open_stream_def Let_def split: option.splits sum.splits)

lemma dispatch_agent_sent:
  "sent (snd (dispatch_agent send ai taskId cid plan summary latest (n, agent) st)) =
     sent st @
       [(n, if truthy (waitingSubTaskId plan)
            then \<lparr>param_id = the (waitingSubTaskId plan), param_sessionId = Some cid,
                  param_message = latest\<rparr>
            else \<lparr>param_id = generateSubTaskId taskId n, param_sessionId = Some cid,
                  param_message =
                    \<lparr>role = ''user'',
                     parts = [TextPart (generateSubTaskPrompt ai (taskDescription plan) n
                                (case card_description (card agent) of None \<Rightarrow> [] | Some d \<Rightarrow> d)
                                plan summary)]\<rparr>\<rparr>)]"
  by (simp add: dispatch_agent_def Let_def open_stream_sent)

lemma dispatch_all_sent:
  assumes "(n, p) \<in> set (sent (snd (dispatch_all send ai taskId cid plan summary latest entries st)))"
  shows "(n, p) \<in> set (sent st) \<or>
         (\<exists>agent. (n, agent) \<in> set entries \<and>
            p = (if truthy (waitingSubTaskId plan)
                 then \<lparr>param_id = the (waitingSubTaskId plan), param_sessionId = Some cid,
                       param_message = latest\<rparr>
                 else \<lparr>param_id = generateSubTaskId taskId n, param_sessionId = Some cid,
                       param_message =
                         \<lparr>role = ''user'',
                          parts = [TextPart (generateSubTaskPrompt ai (taskDescription plan) n
                                     (case card_description (card agent) of None \<Rightarrow> [] | Some d \<Rightarrow> d)
                                     plan summary)]\<rparr>\<rparr>))"
  using assms
proof (induction entries arbitrary: st)
  case Nil
  then show ?case by simp
next
  case (Cons entry entries)
  obtain a agent where entry: "entry = (a, agent)" by (cases entry)
  obtain err st' where d: "dispatch_agent send ai taskId cid plan summary latest (a, agent) st = (err, st')"
    by (cases "dispatch_agent send ai taskId cid plan summary latest (a, agent) st")
  from dispatch_agent_sent [of send ai taskId cid plan summary latest a agent st] d
  have st': "sent st' = sent st @
       [(a, if truthy (waitingSubTaskId plan)
            then \<lparr>param_id = the (waitingSubTaskId plan), param_sessionId = Some cid,
                  param_message = latest\<rparr>
            else \<lparr>param_id = generateSubTaskId taskId a, param_sessionId = Some cid,
                  param_message =
                    \<lparr>role = ''user'',
                     parts = [TextPart (generateSubTaskPrompt ai (taskDescription plan) a
                                (case card_description (card agent) of None \<Rightarrow> [] | Some d \<Rightarrow> d)
                                plan summary)]\<rparr>\<rparr>)]"
    by simp
  show ?case
  proof (cases err)
    case None
    with Cons.prems d entry
    have "(n, p) \<in> set (sent (snd (dispatch_all send ai taskId cid plan summary latest entries st')))"
      by simp
    from Cons.IH [OF this] show ?thesis
    proof
      assume "(n, p) \<in> set (sent st')"
      with st' entry show ?thesis by auto
    next
      assume "\<exists>agent. (n, agent) \<in> set entries \<and> p = (if truthy (waitingSubTaskId plan)
                 then \<lparr>param_id = the (waitingSubTaskId plan), param_sessionId = Some cid,
                       param_message = latest\<rparr>
                 else \<lparr>param_id = generateSubTaskId taskId n, param_sessionId = Some cid,
                       param_message =
                         \<lparr>role = ''user'',
                          parts = [TextPart (generateSubTaskPrompt ai (taskDescription plan) n
                                     (case card_description (card agent) of None \<Rightarrow> [] | Some d \<Rightarrow> d)
                                     plan summary)]\<rparr>\<rparr>)"
      then show ?thesis by auto
    qed
  next
    case (Some e)
    with Cons.prems d entry have "(n, p) \<in> set (sent st')" by simp
    with st' entry show ?thesis by auto
  qed
qed

lemma update_mem:
  "x \<in> set (AList.update k v al) \<Longrightarrow> x = (k, v) \<or> x \<in> set al"
  by (induction al) (auto split: if_splits)

lemma resolve_agents_from:
  assumes "(n, agent) \<in> set (fst (foldl (\<lambda>(agentsByName, selected) agentName.
              case findAgentByName reg agentName of
                Some agent \<Rightarrow> (AList.update agentName agent agentsByName, selected @ [agent])
              | None \<Rightarrow> (agentsByName, selected)) acc names))"
  shows "(n, agent) \<in> set (fst acc) \<or> n \<in> set names \<and> findAgentByName reg n = Some agent"
  using assms
proof (induction names arbitrary: acc)
  case Nil
  then show ?case by simp
next
  case (Cons a names)
  obtain abn sel where acc: "acc = (abn, sel)" by (cases acc)
  show ?case
  proof (cases "findAgentByName reg a")
    case None
    with Cons.prems acc Cons.IH [of "(abn, sel)"] show ?thesis by auto
  next
    case (Some ag)
    with Cons.prems acc Cons.IH [of "(AList.update a ag abn, sel @ [ag])"]
    show ?thesis using update_mem [of "(n, agent)" a ag abn] by auto
  qed
qed

lemma resolve_agents_mem:
  "(n, agent) \<in> set (fst (resolve_agents reg names)) \<Longrightarrow>
   n \<in> set names \<and> findAgentByName reg n = Some agent"
  using resolve_agents_from [of n agent reg "([], [])" names]
  by (simp add: resolve_agents_def)

lemma executeTaskPlan_requests:
  assumes "(n, p) \<in> set (requests (executeTaskPlan send ai reg mem start taskId cid plan))"
  shows "\<exists>conversation agent.
           getConversation mem cid = Some conversation \<and> turns conversation \<noteq> [] \<and>
           n \<in> set (selectedAgents plan) \<and> findAgentByName reg n = Some agent \<and>
           p = (if truthy (waitingSubTaskId plan)
                then \<lparr>param_id = the (waitingSubTaskId plan), param_sessionId = Some cid,
                      param_message = userMessage (last (turns conversation))\<rparr>
                else \<lparr>param_id = generateSubTaskId taskId n, param_sessionId = Some cid,
                      param_message =
                        \<lparr>role = ''user'',
                         parts = [TextPart (generateSubTaskPrompt ai (taskDescription plan) n
                                    (case card_description (card agent) of None \<Rightarrow> [] | Some d \<Rightarrow> d)
                                    plan (getConversationSummary mem cid 5))]\<rparr>\<rparr>)"
proof -
  obtain abn sel where r: "resolve_agents reg (selectedAgents plan) = (abn, sel)"
    by (cases "resolve_agents reg (selectedAgents plan)")
  from assms r obtain conversation where
    c: "getConversation mem cid = Some conversation" "turns conversation \<noteq> []"
    by (auto simp: executeTaskPlan_def Let_def split: if_splits option.splits)
  define st0 where "st0 = \<lparr>streamingTasks = [], dispatch_memory = mem, sent = []\<rparr>"
  define d where "d = dispatch_all send ai taskId cid plan (getConversationSummary mem cid 5)
                        (userMessage (last (turns conversation))) abn st0"
  have "requests (executeTaskPlan send ai reg mem start taskId cid plan) = sent (snd d) \<or>
        requests (executeTaskPlan send ai reg mem start taskId cid plan) = []"
    using r c
    by (auto simp: executeTaskPlan_def Let_def d_def st0_def split: if_splits option.splits prod.splits)
  with assms have "(n, p) \<in> set (sent (snd d))" by auto
  from dispatch_all_sent [OF this [unfolded d_def]]
  obtain agent where a: "(n, agent) \<in> set abn"
    and p: "p = (if truthy (waitingSubTaskId plan)
                then \<lparr>param_id = the (waitingSubTaskId plan), param_sessionId = Some cid,
                      param_message = userMessage (last (turns conversation))\<rparr>
                else \<lparr>param_id = generateSubTaskId taskId n, param_sessionId = Some cid,
                      param_message =
                        \<lparr>role = ''user'',
                         parts = [TextPart (generateSubTaskPrompt ai (taskDescription plan) n
                                    (case card_description (card agent) of None \<Rightarrow> [] | Some d \<Rightarrow> d)
                                    plan (getConversationSummary mem cid 5))]\<rparr>\<rparr>)"
    by (auto simp: st0_def)
  from a r resolve_agents_mem [of n agent reg "selectedAgents plan"]
  have "n \<in> set (selectedAgents plan) \<and> findAgentByName reg n = Some agent" by simp
  with c p show ?thesis by blast
qed


lemma handler_track_result_lookups:
  "(n, i) \<in> set (snd (handler_track_result getTask reg taskId st tagged)) \<Longrightarrow>
   (n, i) \<in> set (snd st) \<or> i = generateSubTaskId taskId n"
  by (cases st; cases tagged)
     (auto simp: handler_track_result_def generateSubTaskId_def Let_def
        split: if_splits option.splits)

lemma handler_collect_from:
  "(n, i) \<in> set (snd (foldl (handler_track_result getTask reg taskId) st evs)) \<Longrightarrow>
   (n, i) \<in> set (snd st) \<or> i = generateSubTaskId taskId n"
proof (induction evs arbitrary: st)
  case Nil
  then show ?case by simp
next
  case (Cons e evs)
  from Cons.IH [of "handler_track_result getTask reg taskId st e"] Cons.prems
  show ?case using handler_track_result_lookups by fastforce
qed

lemma handler_collect_lookups:
  "(n, i) \<in> set (snd (handler_collect getTask reg taskId evs)) \<Longrightarrow> i = generateSubTaskId taskId n"
  using handler_collect_from [of n i getTask reg taskId "([], [])" evs]
  by (simp add: handler_collect_def)

text \<open>
  C1. Coder's stream yields one event and ends, Movie's stream yields three events and
  ends. The generator returns without an error after yielding two tagged events, not four:
  Movie's first and second event are never yielded.
\<close>

theorem fan_in_yields_two_of_four:
  "yielded_events (trace fan_in_run) =
     [(''Coder'', progress ''a1''), (''Movie'', progress ''b3'')] \<and>
   failure fan_in_run = None"
  by code_simp

text \<open>
  C2. In the same run, the second round calls \<open>next()\<close> on both streams although only
  Coder's promise has resolved: Movie then has two unresolved requests, and three after
  the third round.
\<close>

theorem second_round_pulls_unresolved_stream:
  "map winner (trace fan_in_run) = [''Coder'', ''Coder'', ''Movie'', ''Movie''] \<and>
   map pulled (trace fan_in_run) =
     [[(''Coder'', 1), (''Movie'', 1)], [(''Coder'', 1), (''Movie'', 2)],
      [(''Movie'', 3)], [(''Movie'', 1)]]"
  by code_simp

subsection \<open>Plans of the planner\<close>


lemma analyzeRequest_no_suspension:
  "waitingSubTaskId (analyzeRequest analyse userMsg availableAgents summary None) = None"
  by (simp add: analyzeRequest_def Let_def split: option.splits)






subsection \<open>Runs of the handler\<close>

lemma mux_round_names:
  assumes step: "mux_round taskId cid plan abn s = Some (rd, s')"
  shows "fst ` set (activeStreams s') \<subseteq> fst ` set (activeStreams s) \<and>
         (\<forall>n ev. yielded rd = Some (n, ev) \<longrightarrow> n \<in> fst ` set (activeStreams s))"
proof -
  define live where "live = activeStreams s"
  define adv where "adv = (\<lambda>(n::string, it::AsyncIterator). (n, snd (snd (next_pull (mux_now s) it))))"
  define prom where
    "prom = (\<lambda>(n::string, it::AsyncIterator). (n, fst (next_pull (mux_now s) it), fst (snd (next_pull (mux_now s) it))))"
  have ne: "live \<noteq> []"
    using step by (auto simp: mux_round_def live_def split: if_splits)
  have advanced:
    "map (\<lambda>(agentName, r, res, it'). (agentName, it'))
       (map (\<lambda>(agentName, it). (agentName, next_pull (mux_now s) it)) live) = map adv live"
    by (simp add: adv_def split_def)
  have promises:
    "map (\<lambda>(agentName, r, res, it'). (agentName, r, res))
       (map (\<lambda>(agentName, it). (agentName, next_pull (mux_now s) it)) live) = map prom live"
    by (simp add: prom_def split_def)
  obtain w r res where w: "race (hd (map prom live)) (tl (map prom live)) = (w, r, res)"
    by (cases "race (hd (map prom live)) (tl (map prom live))")
  have "(w, r, res) \<in> set (map prom live)"
    using race_mem [of "hd (map prom live)" "tl (map prom live)"] ne w by simp
  then have wl: "w \<in> fst ` set live"
    by (force simp: prom_def)
  have "map fst (map adv live) = map fst live"
    by (simp add: adv_def split_def comp_def)
  then have names: "fst ` set (map adv live) = fst ` set live"
    by (metis set_map)
  have del: "fst ` set (AList.delete w xs) \<subseteq> fst ` set xs" for xs :: "(string \<times> AsyncIterator) list"
    by (induction xs) auto
  have streams:
    "(activeStreams s' = AList.delete w (map adv live) \<or> activeStreams s' = map adv live) \<and>
     (\<forall>n ev. yielded rd = Some (n, ev) \<longrightarrow> n = w)"
    using step w unfolding mux_round_def live_def [symmetric] Let_def advanced promises
    by (auto split: if_splits option.splits sum.splits)
  from streams have "activeStreams s' = AList.delete w (map adv live) \<or> activeStreams s' = map adv live"
    by simp
  then have sub: "fst ` set (activeStreams s') \<subseteq> fst ` set live"
  proof
    assume "activeStreams s' = AList.delete w (map adv live)"
    with del [of "map adv live"] names show ?thesis by simp
  next
    assume "activeStreams s' = map adv live"
    with names show ?thesis by simp
  qed
  from streams wl have "\<forall>n ev. yielded rd = Some (n, ev) \<longrightarrow> n \<in> fst ` set live"
    by blast
  with sub show ?thesis
    unfolding live_def by blast
qed

lemma multiplex_yield_names:
  "(n, ev) \<in> set (yielded_events (fst (multiplex taskId cid plan abn s))) \<Longrightarrow>
   n \<in> fst ` set (activeStreams s)"
proof (induction taskId cid plan abn s rule: multiplex.induct)
  case (1 taskId cid plan abn s)
  show ?case
  proof (cases "mux_round taskId cid plan abn s")
    case None
    with "1.prems" show ?thesis
      by (simp add: multiplex.simps [of taskId cid plan abn s] yielded_events_def
            List.map_filter_simps)
  next
    case (Some a)
    obtain rd s' where a: "a = (rd, s')" by (cases a)
    obtain rds fin where m: "multiplex taskId cid plan abn s' = (rds, fin)"
      by (cases "multiplex taskId cid plan abn s'")
    have unfold: "multiplex taskId cid plan abn s = (rd # rds, fin)"
      by (simp add: multiplex.simps [of taskId cid plan abn s] Some a m)
    from mux_round_names [OF Some [unfolded a]]
    have sub: "fst ` set (activeStreams s') \<subseteq> fst ` set (activeStreams s)"
      and y: "\<forall>n ev. yielded rd = Some (n, ev) \<longrightarrow> n \<in> fst ` set (activeStreams s)"
      by auto
    from "1.prems" unfold
    have "yielded rd = Some (n, ev) \<or> (n, ev) \<in> set (yielded_events rds)"
      by (cases "yielded rd") (auto simp: yielded_events_Cons)
    then show ?thesis
    proof
      assume "yielded rd = Some (n, ev)"
      with y show ?thesis by blast
    next
      assume "(n, ev) \<in> set (yielded_events rds)"
      with "1.IH" [OF Some a [symmetric]] m sub show ?thesis by auto
    qed
  qed
qed

lemma live_names:
  "fst ` set (foldl (\<lambda>m (agentName, stream). AList.update agentName (asyncIterator stream) m)
                acc xs) = fst ` set acc \<union> fst ` set xs"
  by (induction xs arbitrary: acc) (auto simp: dom_update split_def)

lemma open_stream_streaming:
  "fst ` set (streamingTasks (snd (open_stream send cid n agent sid msg st)))
     \<subseteq> insert n (fst ` set (streamingTasks st))"
  by (auto simp: open_stream_def Let_def split: option.splits sum.splits)

lemma dispatch_agent_streaming:
  assumes "fst ` set (streamingTasks st) \<subseteq> fst ` set (sent st)"
  shows "fst ` set (streamingTasks (snd (dispatch_agent send ai taskId cid plan summary latest entry st)))
           \<subseteq> fst ` set (sent (snd (dispatch_agent send ai taskId cid plan summary latest entry st)))"
proof (cases entry)
  case (Pair n agent)
  have "fst ` set (streamingTasks (snd (dispatch_agent send ai taskId cid plan summary latest (n, agent) st)))
          \<subseteq> insert n (fst ` set (streamingTasks st))"
    using open_stream_streaming by (simp add: dispatch_agent_def Let_def)
  moreover have "fst ` set (sent (snd (dispatch_agent send ai taskId cid plan summary latest (n, agent) st)))
          = insert n (fst ` set (sent st))"
    by (simp add: dispatch_agent_sent)
  ultimately show ?thesis using assms Pair by auto
qed

lemma dispatch_all_streaming:
  assumes "fst ` set (streamingTasks st) \<subseteq> fst ` set (sent st)"
  shows "fst ` set (streamingTasks (snd (dispatch_all send ai taskId cid plan summary latest entries st)))
           \<subseteq> fst ` set (sent (snd (dispatch_all send ai taskId cid plan summary latest entries st)))"
  using assms
proof (induction entries arbitrary: st)
  case Nil
  then show ?case by simp
next
  case (Cons entry entries)
  obtain err st' where d: "dispatch_agent send ai taskId cid plan summary latest entry st = (err, st')"
    by (cases "dispatch_agent send ai taskId cid plan summary latest entry st")
  from dispatch_agent_streaming [OF Cons.prems, of send ai taskId cid plan summary latest entry] d
  have inv: "fst ` set (streamingTasks st') \<subseteq> fst ` set (sent st')" by simp
  show ?case
  proof (cases err)
    case None
    with d Cons.IH [OF inv] show ?thesis by simp
  next
    case (Some e)
    with d inv show ?thesis by simp
  qed
qed

lemma executeTaskPlan_yield_called:
  assumes "(n, ev) \<in> set (yielded_events (trace (executeTaskPlan send ai reg mem start taskId cid plan)))"
  shows "\<exists>p. (n, p) \<in> set (requests (executeTaskPlan send ai reg mem start taskId cid plan))"
proof -
  obtain abn sel where r: "resolve_agents reg (selectedAgents plan) = (abn, sel)"
    by (cases "resolve_agents reg (selectedAgents plan)")
  have empty: "yielded_events [] = []"
    by (simp add: yielded_events_def List.map_filter_simps)
  from assms r obtain conversation where
    c: "getConversation mem cid = Some conversation" "turns conversation \<noteq> []" "sel \<noteq> []"
    by (auto simp: executeTaskPlan_def Let_def empty split: if_splits option.splits)
  define st0 where "st0 = \<lparr>streamingTasks = [], dispatch_memory = mem, sent = []\<rparr>"
  define d where "d = dispatch_all send ai taskId cid plan (getConversationSummary mem cid 5)
                        (userMessage (last (turns conversation))) abn st0"
  obtain err st where dst: "d = (err, st)" by (cases d)
  define live where "live = foldl (\<lambda>m (agentName, stream).
                                AList.update agentName (asyncIterator stream) m) [] (streamingTasks st)"
  define s0 where "s0 = \<lparr>mux_now = start, activeStreams = live, memory = dispatch_memory st,
                          inputRequiredAgents = [], thrown = None\<rparr>"
  have none: "err = None"
    using assms r c dst
    by (cases err) (auto simp: executeTaskPlan_def Let_def empty d_def [symmetric] st0_def [symmetric])
  have ex: "trace (executeTaskPlan send ai reg mem start taskId cid plan) =
              fst (multiplex taskId cid plan abn s0) \<and>
            requests (executeTaskPlan send ai reg mem start taskId cid plan) = sent st"
    using r c dst none
    by (auto simp: executeTaskPlan_def Let_def d_def [symmetric] st0_def [symmetric]
          live_def [symmetric] s0_def [symmetric] split: prod.splits)
  with assms have "n \<in> fst ` set (activeStreams s0)"
    using multiplex_yield_names [of n ev taskId cid plan abn s0] by simp
  then have "n \<in> fst ` set (streamingTasks st)"
    by (simp add: s0_def live_def live_names)
  moreover have "fst ` set (streamingTasks st) \<subseteq> fst ` set (sent st)"
    using dispatch_all_streaming [of st0 send ai taskId cid plan "getConversationSummary mem cid 5"
            "userMessage (last (turns conversation))" abn] dst [unfolded d_def]
    by (simp add: st0_def)
  ultimately have "n \<in> fst ` set (sent st)" by blast
  with ex show ?thesis by auto
qed

lemma handler_track_result_grows:
  "x \<in> set (snd st) \<Longrightarrow> x \<in> set (snd (handler_track_result getTask reg taskId st tagged))"
  by (cases st; cases tagged)
     (auto simp: handler_track_result_def Let_def split: if_splits option.splits)

lemma handler_collect_grows:
  "x \<in> set (snd st) \<Longrightarrow> x \<in> set (snd (foldl (handler_track_result getTask reg taskId) st evs))"
  by (induction evs arbitrary: st) (auto simp: handler_track_result_grows)

lemma handler_track_result_made:
  "is_terminal ev \<Longrightarrow> findAgentByName reg n \<noteq> None \<Longrightarrow>
   (n, generateSubTaskId taskId n) \<in> set (snd (handler_track_result getTask reg taskId st (n, ev)))"
  by (cases st)
     (auto simp: handler_track_result_def generateSubTaskId_def Let_def split: option.splits)

lemma handler_collect_made_from:
  "(n, ev) \<in> set evs \<Longrightarrow> is_terminal ev \<Longrightarrow> findAgentByName reg n \<noteq> None \<Longrightarrow>
   (n, generateSubTaskId taskId n) \<in> set (snd (foldl (handler_track_result getTask reg taskId) st evs))"
proof (induction evs arbitrary: st)
  case Nil
  then show ?case by simp
next
  case (Cons e evs)
  show ?case
  proof (cases "e = (n, ev)")
    case True
    from handler_track_result_made [OF Cons.prems(2,3), of taskId getTask st]
    show ?thesis using True handler_collect_grows by simp
  next
    case False
    with Cons show ?thesis by simp
  qed
qed

lemma handler_collect_made:
  "(n, ev) \<in> set evs \<Longrightarrow> is_terminal ev \<Longrightarrow> findAgentByName reg n \<noteq> None \<Longrightarrow>
   (n, generateSubTaskId taskId n) \<in> set (snd (handler_collect getTask reg taskId evs))"
  by (simp add: handler_collect_def handler_collect_made_from)

lemma handler_execute_fields:
  "run_plan (handler_execute W reg mem now later taskId cid plan) = Some plan \<and>
   calls (handler_execute W reg mem now later taskId cid plan) =
     requests (executeTaskPlan (w_send W) (w_ai W) reg mem now taskId cid plan) \<and>
   received (handler_execute W reg mem now later taskId cid plan) =
     yielded_events (trace (executeTaskPlan (w_send W) (w_ai W) reg mem now taskId cid plan)) \<and>
   lookups (handler_execute W reg mem now later taskId cid plan) =
     snd (handler_collect (w_getTask W) reg taskId
            (yielded_events (trace (executeTaskPlan (w_send W) (w_ai W) reg mem now taskId cid plan))))"
  by (simp add: handler_execute_def Let_def split: option.splits prod.splits sum.splits)

lemma handler_execute_fresh:
  assumes "\<not> truthy (waitingSubTaskId plan)"
  shows "terminal_records_fetched (handler_execute W reg mem now later taskId cid plan) \<and>
         (\<forall>(n, p) \<in> set (calls (handler_execute W reg mem now later taskId cid plan)).
            param_id p = generateSubTaskId taskId n) \<and>
         (\<forall>(n, i) \<in> set (lookups (handler_execute W reg mem now later taskId cid plan)).
            i = generateSubTaskId taskId n)"
proof -
  let ?exec = "executeTaskPlan (w_send W) (w_ai W) reg mem now taskId cid plan"
  let ?run = "handler_execute W reg mem now later taskId cid plan"
  note f = handler_execute_fields [of W reg mem now later taskId cid plan]
  have ids: "param_id p = generateSubTaskId taskId n \<and> findAgentByName reg n \<noteq> None"
    if "(n, p) \<in> set (requests ?exec)" for n p
    using executeTaskPlan_requests [OF that] assms by auto
  have fetched: "\<exists>p. (n, p) \<in> set (calls ?run) \<and> (n, param_id p) \<in> set (lookups ?run)"
    if "(n, ev) \<in> set (received ?run)" "is_terminal ev" for n ev
  proof -
    from that(1) f have y: "(n, ev) \<in> set (yielded_events (trace ?exec))" by simp
    from executeTaskPlan_yield_called [OF y]
    obtain p where p: "(n, p) \<in> set (requests ?exec)" by blast
    from ids [OF p] have id: "param_id p = generateSubTaskId taskId n"
      and ag: "findAgentByName reg n \<noteq> None" by auto
    from handler_collect_made [OF y that(2) ag, of taskId "w_getTask W"] f id p
    show ?thesis by auto
  qed
  have "terminal_records_fetched ?run"
    unfolding terminal_records_fetched_def list_all_iff list_ex_iff
    using fetched by fastforce
  moreover have "\<forall>(n, p) \<in> set (calls ?run). param_id p = generateSubTaskId taskId n"
    using ids f by auto
  moreover have "\<forall>(n, i) \<in> set (lookups ?run). i = generateSubTaskId taskId n"
    using handler_collect_lookups f by auto
  ultimately show ?thesis by blast
qed

lemma handler_resume_fields:
  "run_plan (handler_resume W reg mem now sessionId userMsg st) = None \<and>
   lookups (handler_resume W reg mem now sessionId userMsg st) = [] \<and>
   (\<forall>(n, p) \<in> set (calls (handler_resume W reg mem now sessionId userMsg st)).
      n = inputRequiredAgent st \<and> param_id p = subTaskId st \<and> param_message p = userMsg)"
  by (simp add: handler_resume_def idle_run_def Let_def split: option.splits prod.splits)

lemma planExecution_no_suspension:
  assumes "planExecution analyse uuid reg mem now taskId userMsg sessionId = (Inr (plan, cid), mem')"
      and "truthy sessionId"
      and "(case getConversation mem (the sessionId) of None \<Rightarrow> None
            | Some conversation \<Rightarrow> lastState conversation) = None"
  shows "waitingSubTaskId plan = None"
proof -
  define k where "k = the sessionId"
  define mem1 where "mem1 = (case getConversation mem k of
                    Some conversation \<Rightarrow> mem
                  | None \<Rightarrow> snd (createConversation mem now k []))"
  have l1: "\<exists>c. mem1 k = Some c \<and> lastState c = None"
    using assms(3)
    by (auto simp: mem1_def k_def getConversation_def createConversation_def Let_def
          split: option.splits)
  then obtain c where c: "mem1 k = Some c" "lastState c = None" by blast
  define mem2 where "mem2 = mem1(k \<mapsto> c\<lparr>turns := turns c @ [\<lparr>userMessage = userMsg, agentResponse = None,
                       timestamp = now, turn_taskId = Some taskId, subTasks = None\<rparr>],
                       lastUpdatedAt := now\<rparr>)"
  have add: "addUserMessage mem1 now k userMsg (Some taskId) = Inr mem2"
    using c by (simp add: addUserMessage_def mem2_def Let_def)
  have last: "(case getConversation mem2 k of None \<Rightarrow> None
               | Some conversation \<Rightarrow> lastState conversation) = None"
    using c by (simp add: mem2_def getConversation_def)
  from assms(1,2) add last
  have "plan = analyzeRequest analyse userMsg
                 (filter (\<lambda>agent. status agent = Active) (getAllAgents reg))
                 (getConversationSummary mem2 k 5) None"
    by (auto simp: planExecution_def Let_def k_def [symmetric] mem1_def [symmetric]
          split: if_splits)
  then show ?thesis by (simp add: analyzeRequest_no_suspension)
qed

text \<open>
  C5 (amended). In a run of the handler whose plan carries no \<open>waitingSubTaskId\<close>, as
  is every plan obtained when no suspension is stored for the session: for every terminal
  event received from an agent, the terminal record is looked up under the id of the call
  made to that agent, and every call and every lookup uses the id derived from the parent
  task id and the agent name. In a run that finds a suspension stored for the session, the
  handler itself resumes the sub-task: every call is made for the waiting agent with the
  stored sub-task id and the user message, no plan is made and no terminal record is
  looked up.
\<close>

theorem handler_lookup_discipline:
  assumes "run = handler W reg mem now later taskId sessionId userMsg"
      and "previousState = (case getConversation mem (if truthy sessionId then the sessionId else []) of
                              None \<Rightarrow> None
                            | Some conversation \<Rightarrow> lastState conversation)"
  shows "(\<forall>plan. run_plan run = Some plan \<and> \<not> truthy (waitingSubTaskId plan) \<longrightarrow>
            terminal_records_fetched run \<and>
            (\<forall>(n, p) \<in> set (calls run). param_id p = generateSubTaskId taskId n) \<and>
            (\<forall>(n, i) \<in> set (lookups run). i = generateSubTaskId taskId n)) \<and>
         (truthy sessionId \<and> previousState = None \<longrightarrow>
            (\<forall>plan. run_plan run = Some plan \<longrightarrow> waitingSubTaskId plan = None)) \<and>
         (\<forall>st. previousState = Some st \<and> inputRequiredAgent st \<noteq> [] \<longrightarrow>
            run_plan run = None \<and> lookups run = [] \<and>
            (\<forall>(n, p) \<in> set (calls run).
               n = inputRequiredAgent st \<and> param_id p = subTaskId st \<and> param_message p = userMsg))"
proof -
  have A: "terminal_records_fetched run \<and>
            (\<forall>(n, p) \<in> set (calls run). param_id p = generateSubTaskId taskId n) \<and>
            (\<forall>(n, i) \<in> set (lookups run). i = generateSubTaskId taskId n)"
    if h: "run_plan run = Some plan \<and> \<not> truthy (waitingSubTaskId plan)" for plan
  proof -
    have guard: "\<not> (case previousState of None \<Rightarrow> False | Some st \<Rightarrow> inputRequiredAgent st \<noteq> [])"
    proof
      assume "case previousState of None \<Rightarrow> False | Some st \<Rightarrow> inputRequiredAgent st \<noteq> []"
      then have "run = handler_resume W reg mem now sessionId userMsg (the previousState)"
        using assms by (simp add: handler_def Let_def)
      with h handler_resume_fields show False by simp
    qed
    have "run = (idle_run reg (snd (planExecution (w_analyse W) (w_uuid W) reg mem now taskId userMsg sessionId)) Failed)\<lparr>run_plan := Some plan\<rparr>
          \<or> (\<exists>cid mem'. run = handler_execute W reg mem' now later taskId cid plan)"
      using assms guard h handler_execute_fields
      by (auto simp: handler_def Let_def idle_run_def split: option.splits prod.splits sum.splits if_splits)
    then show ?thesis
    proof
      assume "run = (idle_run reg (snd (planExecution (w_analyse W) (w_uuid W) reg mem now taskId userMsg sessionId)) Failed)\<lparr>run_plan := Some plan\<rparr>"
      then show ?thesis by (simp add: idle_run_def terminal_records_fetched_def)
    next
      assume "\<exists>cid mem'. run = handler_execute W reg mem' now later taskId cid plan"
      then obtain cid mem' where "run = handler_execute W reg mem' now later taskId cid plan" by blast
      with handler_execute_fresh [of plan W reg mem' now later taskId cid] h show ?thesis by simp
    qed
  qed
  have B: "waitingSubTaskId plan = None"
    if h: "truthy sessionId \<and> previousState = None" and p: "run_plan run = Some plan" for plan
  proof -
    from h assms(2) have prev: "(case getConversation mem (the sessionId) of None \<Rightarrow> None
            | Some conversation \<Rightarrow> lastState conversation) = None" by (auto split: if_splits)
    from p assms h obtain cid mem' where
      "planExecution (w_analyse W) (w_uuid W) reg mem now taskId userMsg sessionId = (Inr (plan, cid), mem')"
      using handler_execute_fields
      by (auto simp: handler_def Let_def idle_run_def split: option.splits prod.splits sum.splits if_splits)
    from planExecution_no_suspension [OF this _ prev] h show ?thesis by simp
  qed
  have C: "run_plan run = None \<and> lookups run = [] \<and>
            (\<forall>(n, p) \<in> set (calls run).
               n = inputRequiredAgent st \<and> param_id p = subTaskId st \<and> param_message p = userMsg)"
    if h: "previousState = Some st \<and> inputRequiredAgent st \<noteq> []" for st
  proof -
    from h have "run = handler_resume W reg mem now sessionId userMsg st"
      using assms by (simp add: handler_def Let_def)
    with handler_resume_fields [of W reg mem now sessionId userMsg st]
    show ?thesis by simp
  qed
  from A B C show ?thesis by blast
qed

text \<open>
  C5 as stated fails on a resumed sub-task. The handler finds the suspension of the Movie
  Agent stored under \<open>T1-movie-agent\<close>, sends the user's answer to the agent under that
  id and receives the completed status of the sub-task; it looks no terminal record up.
\<close>

theorem resumed_record_not_fetched:
  "calls resumed_by_handler =
     [(''Movie Agent'', \<lparr>param_id = ''T1-movie-agent'', param_sessionId = Some ''conv-1'',
                          param_message = user_says ''1995''\<rparr>)] \<and>
   received resumed_by_handler =
     [(''Movie Agent'', StatusUpdate Completed (Some \<lparr>role = ''agent'', parts = [TextPart ''done'']\<rparr>))] \<and>
   lookups resumed_by_handler = [] \<and>
   \<not> terminal_records_fetched resumed_by_handler"
  by code_simp

lemma fresh_by_handler_eval:
  "run_plan fresh_by_handler =
     Some \<lparr>taskDescription = ''a film please'', isMultiAgentTask = False,
           selectedAgents = [''Movie Agent''], plan_subTasks = [],
           executionOrder = Parallel, needsCoordination = False,
           waitingSubTaskId = None, continueWithAgent = None,
           continuationContext = None\<rparr> \<and>
   calls fresh_by_handler =
     [(''Movie Agent'', \<lparr>param_id = ''T2-movie-agent'', param_sessionId = Some ''conv-1'',
                          param_message = user_says ''a film please''\<rparr>)] \<and>
   received fresh_by_handler =
     [(''Movie Agent'', StatusUpdate Completed (Some \<lparr>role = ''agent'', parts = [TextPart ''done'']\<rparr>))] \<and>
   lookups fresh_by_handler = [(''Movie Agent'', ''T2-movie-agent'')]"
  by code_simp

theorem handler_lookup_discipline_witness:
  "terminal_records_fetched fresh_by_handler \<and>
   calls fresh_by_handler =
     [(''Movie Agent'', \<lparr>param_id = ''T2-movie-agent'', param_sessionId = Some ''conv-1'',
                          param_message = user_says ''a film please''\<rparr>)] \<and>
   received fresh_by_handler =
     [(''Movie Agent'', StatusUpdate Completed (Some \<lparr>role = ''agent'', parts = [TextPart ''done'']\<rparr>))] \<and>
   lookups fresh_by_handler = [(''Movie Agent'', ''T2-movie-agent'')]"
proof -
  define plan0 where "plan0 = \<lparr>taskDescription = ''a film please'', isMultiAgentTask = False,
           selectedAgents = [''Movie Agent''], plan_subTasks = [],
           executionOrder = Parallel, needsCoordination = False,
           waitingSubTaskId = None, continueWithAgent = None,
           continuationContext = None\<rparr>"
  have plan: "run_plan fresh_by_handler = Some plan0 \<and> \<not> truthy (waitingSubTaskId plan0)"
    using fresh_by_handler_eval by (simp add: plan0_def truthy_def)
  from handler_lookup_discipline [OF fresh_by_handler_def refl]
  have "\<forall>plan. run_plan fresh_by_handler = Some plan \<and> \<not> truthy (waitingSubTaskId plan) \<longrightarrow>
            terminal_records_fetched fresh_by_handler \<and>
            (\<forall>(n, p) \<in> set (calls fresh_by_handler). param_id p = generateSubTaskId ''T2'' n) \<and>
            (\<forall>(n, i) \<in> set (lookups fresh_by_handler). i = generateSubTaskId ''T2'' n)"
    by (rule conjunct1)
  with plan have "terminal_records_fetched fresh_by_handler" by blast
  with fresh_by_handler_eval show ?thesis by simp
qed

end
